theory Spec2Isabelle
  imports Main "HOL-Library.Word"
begin

unbundle bit_operations_syntax

section \<open>Values, roles and identities\<close>

text \<open>
  The backend is TypeScript on Node. Values whose static type is \<open>unknown\<close> (a decoded
  token, a request body, a field of a shared map) are modelled by one datatype of runtime
  values. Numbers are integers here: no claim depends on arithmetic on them. A string is
  a list of 8-bit characters; of the characters that \<open>String.prototype.trim\<close> removes,
  the ones below 128 are modelled.
\<close>

datatype jsval =
    JUndefined
  | JNull
  | JBool bool
  | JNumber int
  | JString string
  | JArray "jsval list"
  | JObject "(string \<times> jsval) list"
  | YMap "(string \<times> jsval) list"
  | YArray "jsval list"
  | YText string

type_synonym ymap = "(string \<times> jsval) list"

text \<open>\<open>m.get(k)\<close> on a map or \<open>o.k\<close> on an object: \<open>undefined\<close> when the key is absent.\<close>

definition get_field :: "(string \<times> jsval) list \<Rightarrow> string \<Rightarrow> jsval" where
  "get_field m k = (case map_of m k of None \<Rightarrow> JUndefined | Some v \<Rightarrow> v)"

datatype Role = viewer | editor | admin

record AuthTokenPayload =
  userId :: string
  username :: string
  role :: Role

text \<open>\<open>isRole\<close> of persistence.ts, returning the role it recognises.\<close>

definition isRole :: "jsval \<Rightarrow> Role option" where
  "isRole v =
     (if v = JString ''viewer'' then Some viewer
      else if v = JString ''editor'' then Some editor
      else if v = JString ''admin'' then Some admin
      else None)"

text \<open>
  \<open>verifyToken\<close>: \<open>jwt.verify\<close> is the token library, taken as a parameter; it yields
  the decoded claims or throws (\<open>None\<close>), and every throw is caught.
\<close>

definition verifyToken :: "(string \<Rightarrow> jsval option) \<Rightarrow> string \<Rightarrow> AuthTokenPayload option" where
  "verifyToken jwt_verify token =
     (case jwt_verify token of
        None \<Rightarrow> None
      | Some (JObject decoded) \<Rightarrow>
          (case (get_field decoded ''userId'', get_field decoded ''username'',
                 isRole (get_field decoded ''role'')) of
             (JString uid, JString uname, Some r) \<Rightarrow>
               Some \<lparr>userId = uid, username = uname, role = r\<rparr>
           | _ \<Rightarrow> None)
      | Some _ \<Rightarrow> None)"

fun getRoleRank :: "Role \<Rightarrow> nat" where
  "getRoleRank viewer = 0"
| "getRoleRank editor = 1"
| "getRoleRank admin = 2"

section \<open>Strings and paths\<close>

definition is_ws :: "char \<Rightarrow> bool" where
  "is_ws c = (c \<in> set [CHR 0x09, CHR 0x0A, CHR 0x0B, CHR 0x0C, CHR 0x0D, CHR 0x20])"

definition trim :: "string \<Rightarrow> string" where
  "trim s = rev (dropWhile is_ws (rev (dropWhile is_ws s)))"



fun join :: "string \<Rightarrow> string list \<Rightarrow> string" where
  "join sep [] = []"
| "join sep [x] = x"
| "join sep (x # y # ys) = x @ sep @ join sep (y # ys)"

section \<open>The shared document\<close>

text \<open>
  The named containers of the CRDT document that the backend reads and writes. A shared
  map is an association list in insertion order; \<open>wf_Doc\<close> says that its keys are
  distinct, as the keys of a \<open>Y.Map\<close> are.
\<close>

record Doc =
  editor_files :: "(string \<times> string) list"
  file_tree_nodes :: "(string \<times> ymap) list"
  file_tree_roots :: "string list"
  editor_suggestions :: "(string \<times> ymap) list"






section \<open>The persistence gateway\<close>

text \<open>
  The document store is an external system. Each collection is a map from \<open>_id\<close> to a
  record (an \<open>_id\<close> is unique in its collection). An awaited store call either takes
  effect or rejects; which calls reject is an input, \<open>fails\<close>.
\<close>

datatype store_op =
    ProjectUpdateOne
  | ProjectFindById
  | FileFind
  | SuggestionFind
  | FileBulkWrite
  | FileDeleteMany
  | SuggestionBulkWrite
  | UserBulkWrite
  | SuggestionDeleteMany

datatype exn =
    MongoError store_op
  | UnexpectedEndOfArray
  | IntegerOutOfRange
  | LibraryError string

record ProjectRecord =
  name :: string
  created_at :: nat
  updated_at :: nat
  permissions_field :: "(string \<times> Role) list"

record FileRecord =
  file_project_id :: string
  path :: string
  content :: string

record SuggestionRecord =
  suggestion_project_id :: string
  file_id :: string
  creator_id :: string
  suggestion_text :: string
  votes :: "(string \<times> int) list"

record UserRecord =
  user_username :: string
  avatar :: string
  join_date :: nat
  user_role :: Role

record Store =
  projects :: "string \<rightharpoonup> ProjectRecord"
  files :: "string \<rightharpoonup> FileRecord"
  suggestions :: "string \<rightharpoonup> SuggestionRecord"
  users :: "string \<rightharpoonup> UserRecord"

subsection \<open>persistProjectState\<close>

record FileRow =
  fileRow_id :: string
  fileRow_path :: string
  fileRow_content :: string

record SuggestionRow =
  suggestionRow_id :: string
  suggestionRow_file_id :: string
  suggestionRow_creator_id :: string
  suggestionRow_text :: string
  suggestionRow_votes :: "(string \<times> int) list"
  suggestionRow_authorName :: string






text \<open>\<open>new Map(entries)\<close> and repeated \<open>Map.set\<close>: a later entry for a key replaces an earlier one.\<close>

fun assoc_set :: "('k \<times> 'v) list \<Rightarrow> 'k \<Rightarrow> 'v \<Rightarrow> ('k \<times> 'v) list" where
  "assoc_set [] k v = [(k, v)]"
| "assoc_set ((k', v') # rest) k v =
     (if k' = k then (k, v) # rest else (k', v') # assoc_set rest k v)"

text \<open>
  \<open>ProjectModel.updateOne({_id}, {$setOnInsert: {_id, name, created_at}, $set: {updated_at}},
  {upsert: true})\<close>; an inserted project gets the schema's default, no permissions.
\<close>

definition project_touch :: "string \<Rightarrow> nat \<Rightarrow> Store \<Rightarrow> Store" where
  "project_touch projectId now st =
     st\<lparr>projects := (projects st)(projectId \<mapsto>
        (case projects st projectId of
           Some p \<Rightarrow> p\<lparr>updated_at := now\<rparr>
         | None \<Rightarrow> \<lparr>name = projectId, created_at = now, updated_at = now,
                     permissions_field = []\<rparr>))\<rparr>"

text \<open>One \<open>updateOne\<close> of the file \<open>bulkWrite\<close>: filter by \<open>_id\<close>, \<open>$set\<close>, upsert.\<close>

definition file_upsert :: "string \<Rightarrow> FileRow \<Rightarrow> Store \<Rightarrow> Store" where
  "file_upsert projectId row st =
     st\<lparr>files := (files st)(fileRow_id row \<mapsto>
        \<lparr>file_project_id = projectId, path = fileRow_path row, content = fileRow_content row\<rparr>)\<rparr>"

text \<open>\<open>deleteMany({project_id: projectId, _id: {$nin: ids}})\<close> on the files.\<close>

definition file_deleteMany :: "string \<Rightarrow> string list \<Rightarrow> Store \<Rightarrow> Store" where
  "file_deleteMany projectId ids st =
     st\<lparr>files := (\<lambda>i. case files st i of
                        None \<Rightarrow> None
                      | Some r \<Rightarrow> if file_project_id r = projectId \<and> i \<notin> set ids
                                  then None else Some r)\<rparr>"

definition suggestion_upsert :: "string \<Rightarrow> SuggestionRow \<Rightarrow> Store \<Rightarrow> Store" where
  "suggestion_upsert projectId row st =
     st\<lparr>suggestions := (suggestions st)(suggestionRow_id row \<mapsto>
        \<lparr>suggestion_project_id = projectId,
         file_id = suggestionRow_file_id row,
         creator_id = suggestionRow_creator_id row,
         suggestion_text = suggestionRow_text row,
         votes = suggestionRow_votes row\<rparr>)\<rparr>"

text \<open>
  One \<open>updateOne\<close> of the user \<open>bulkWrite\<close>: \<open>$set username\<close>,
  \<open>$setOnInsert avatar, join_date\<close>; an inserted user gets the schema's default role.
\<close>

definition user_upsert :: "nat \<Rightarrow> SuggestionRow \<Rightarrow> Store \<Rightarrow> Store" where
  "user_upsert now row st =
     st\<lparr>users := (users st)(suggestionRow_creator_id row \<mapsto>
        (case users st (suggestionRow_creator_id row) of
           Some u \<Rightarrow> u\<lparr>user_username := suggestionRow_authorName row\<rparr>
         | None \<Rightarrow> \<lparr>user_username = suggestionRow_authorName row, avatar = [],
                     join_date = now, user_role = editor\<rparr>))\<rparr>"

text \<open>The tombstone pass: \<open>deleteMany({project_id: projectId, _id: {$nin: suggestionIds}})\<close>.\<close>

definition suggestion_deleteMany :: "string \<Rightarrow> string list \<Rightarrow> Store \<Rightarrow> Store" where
  "suggestion_deleteMany projectId ids st =
     st\<lparr>suggestions := (\<lambda>i. case suggestions st i of
                        None \<Rightarrow> None
                      | Some r \<Rightarrow> if suggestion_project_id r = projectId \<and> i \<notin> set ids
                                  then None else Some r)\<rparr>"


subsection \<open>loadProjectState\<close>

text \<open>
  What the store answers to the four awaited calls of \<open>loadProjectState\<close>. The reads
  are \<open>lean()\<close> queries, so the fields of what they return are runtime values.
  \<open>permissions\<close> of the project read is a \<open>Map\<close>, a plain object, or neither.
\<close>

datatype permissions_value =
    PermissionsMap "(jsval \<times> jsval) list"
  | PermissionsObject "(string \<times> jsval) list"
  | PermissionsOther

record RawFile =
  rawFile_id :: string
  rawFile_path :: jsval
  rawFile_content :: jsval

record RawSuggestion =
  rawSuggestion_id :: string
  rawSuggestion_file_id :: jsval
  rawSuggestion_creator_id :: jsval
  rawSuggestion_text :: jsval
  rawSuggestion_votes :: "(jsval \<times> jsval) list option"

record LoadResponses =
  updateOne_response :: "exn option"
  findById_response :: "exn + permissions_value option"
  findFiles_response :: "exn + RawFile list"
  findSuggestions_response :: "exn + RawSuggestion list"

fun map_permissionEntries :: "(jsval \<times> jsval) list \<Rightarrow> (string \<times> Role) list" where
  "map_permissionEntries [] = []"
| "map_permissionEntries ((JString u, r) # rest) =
     (case isRole r of
        Some ro \<Rightarrow> (u, ro) # map_permissionEntries rest
      | None \<Rightarrow> map_permissionEntries rest)"
| "map_permissionEntries (_ # rest) = map_permissionEntries rest"

fun object_permissionEntries :: "(string \<times> jsval) list \<Rightarrow> (string \<times> Role) list" where
  "object_permissionEntries [] = []"
| "object_permissionEntries ((u, r) # rest) =
     (case isRole r of
        Some ro \<Rightarrow> (u, ro) # object_permissionEntries rest
      | None \<Rightarrow> object_permissionEntries rest)"

definition permissionEntries_of :: "permissions_value option \<Rightarrow> (string \<times> Role) list" where
  "permissionEntries_of project =
     (case project of
        Some (PermissionsMap entries) \<Rightarrow> map_permissionEntries entries
      | Some (PermissionsObject plainPermissions) \<Rightarrow> object_permissionEntries plainPermissions
      | _ \<Rightarrow> [])"

text \<open>\<open>new Map<string, Role>(permissionEntries)\<close>.\<close>

definition new_Map :: "(string \<times> Role) list \<Rightarrow> (string \<rightharpoonup> Role)" where
  "new_Map entries = fold (\<lambda>(k, v) m. m(k \<mapsto> v)) entries Map.empty"

text \<open>\<open>s.split(c)\<close> for a one-character separator.\<close>

fun split_on :: "char \<Rightarrow> string \<Rightarrow> string list" where
  "split_on sep [] = [[]]"
| "split_on sep (c # cs) =
     (if c = sep then [] # split_on sep cs
      else (case split_on sep cs of
              [] \<Rightarrow> [[c]]
            | p # ps \<Rightarrow> (c # p) # ps))"

text \<open>\<open>pushUnique\<close>, on an array of strings and on a shared array held as a field.\<close>

definition pushUnique :: "string list \<Rightarrow> string \<Rightarrow> string list" where
  "pushUnique yArray v = (if v \<in> set yArray then yArray else yArray @ [v])"

definition pushUnique_values :: "jsval list \<Rightarrow> string \<Rightarrow> jsval list" where
  "pushUnique_values yArray v = (if JString v \<in> set yArray then yArray else yArray @ [JString v])"

text \<open>
  The \<open>if (parentFolderId) { ... pushUnique(children, id) } else { pushUnique(rootIds, id) }\<close>
  block that follows the creation of a folder node and of a file node.
\<close>

definition attach_node :: "string option \<Rightarrow> string \<Rightarrow> Doc \<Rightarrow> Doc" where
  "attach_node parentFolderId nodeId d =
     (case parentFolderId of
        Some pid \<Rightarrow>
          (if pid = [] then d\<lparr>file_tree_roots := pushUnique (file_tree_roots d) nodeId\<rparr>
           else
             (case map_of (file_tree_nodes d) pid of
                None \<Rightarrow> d
              | Some parentNode \<Rightarrow>
                  (case get_field parentNode ''children'' of
                     YArray children \<Rightarrow>
                       d\<lparr>file_tree_nodes := assoc_set (file_tree_nodes d) pid
                            (assoc_set parentNode ''children''
                               (YArray (pushUnique_values children nodeId)))\<rparr>
                   | _ \<Rightarrow> d)))
      | None \<Rightarrow> d\<lparr>file_tree_roots := pushUnique (file_tree_roots d) nodeId\<rparr>)"

definition parent_value :: "string option \<Rightarrow> jsval" where
  "parent_value parentFolderId = (case parentFolderId of None \<Rightarrow> JNull | Some p \<Rightarrow> JString p)"

definition new_node :: "string \<Rightarrow> string \<Rightarrow> string option \<Rightarrow> ymap" where
  "new_node nodeName kind parentFolderId =
     [(''name'', JString nodeName), (''kind'', JString kind),
      (''parentId'', parent_value parentFolderId), (''children'', YArray [])]"

text \<open>
  The loop over \<open>folderParts\<close>, from \<open>index\<close> on; the state is the document and
  \<open>parentFolderId\<close>.
\<close>

function load_folders ::
  "string list \<Rightarrow> nat \<Rightarrow> string option \<Rightarrow> Doc \<Rightarrow> string option \<times> Doc" where
  "load_folders folderParts index parentFolderId d =
     (if index < length folderParts then
        (let folderPath = join ''/'' (take (index + 1) folderParts);
             folderId = ''folder:'' @ folderPath;
             folderName = folderParts ! index;
             d' = (case map_of (file_tree_nodes d) folderId of
                     Some folderNode \<Rightarrow> d
                   | None \<Rightarrow>
                       attach_node parentFolderId folderId
                         (d\<lparr>file_tree_nodes := assoc_set (file_tree_nodes d) folderId
                              (new_node folderName ''folder'' parentFolderId)\<rparr>))
         in load_folders folderParts (index + 1) (Some folderId) d')
      else (parentFolderId, d))"
  by pat_completeness auto
termination
  by (relation "measure (\<lambda>(folderParts, index, parentFolderId, d). length folderParts - index)") auto

declare load_folders.simps [simp del]

text \<open>The body of \<open>for (const file of files)\<close>.\<close>

definition load_file :: "RawFile \<Rightarrow> Doc \<Rightarrow> Doc" where
  "load_file file d =
     (let fileId = rawFile_id file;
          content = (case rawFile_content file of JString c \<Rightarrow> c | _ \<Rightarrow> []);
          path = (case rawFile_path file of JString p \<Rightarrow> p | _ \<Rightarrow> fileId);
          parts = filter (\<lambda>part. length part > 0) (split_on CHR ''/'' path);
          d1 = d\<lparr>editor_files := assoc_set (editor_files d) fileId content\<rparr>;
          folderParts = take (length parts - 1) parts;
          (parentFolderId, d2) = load_folders folderParts 0 None d1;
          fileName = (if length parts > 0 then last parts else fileId);
          d3 = d2\<lparr>file_tree_nodes := assoc_set (file_tree_nodes d2) fileId
                    (new_node fileName ''file'' parentFolderId)\<rparr>
      in attach_node parentFolderId fileId d3)"

text \<open>The votes copied from a stored \<open>Map\<close>; \<open>None\<close> when the field is not a \<open>Map\<close>.\<close>

definition load_votes :: "(jsval \<times> jsval) list option \<Rightarrow> ymap" where
  "load_votes stored =
     (case stored of
        None \<Rightarrow> []
      | Some entries \<Rightarrow>
          fold (\<lambda>entry votesMap.
                  case entry of
                    (JString voteUserId, JNumber vote) \<Rightarrow> assoc_set votesMap voteUserId (JNumber vote)
                  | _ \<Rightarrow> votesMap)
               entries [])"

text \<open>The body of \<open>for (const suggestion of suggestions)\<close>.\<close>

definition load_suggestion :: "RawSuggestion \<Rightarrow> Doc \<Rightarrow> Doc" where
  "load_suggestion suggestion d =
     (let suggestionId = rawSuggestion_id suggestion;
          fileId = (case rawSuggestion_file_id suggestion of JString x \<Rightarrow> x | _ \<Rightarrow> []);
          creatorId = (case rawSuggestion_creator_id suggestion of JString x \<Rightarrow> x | _ \<Rightarrow> []);
          txt = (case rawSuggestion_text suggestion of JString x \<Rightarrow> x | _ \<Rightarrow> [])
      in if fileId = [] \<or> creatorId = [] \<or> txt = [] then d
         else d\<lparr>editor_suggestions := assoc_set (editor_suggestions d) suggestionId
                  [(''fileId'', JString fileId), (''startLine'', JNumber 1),
                   (''endLine'', JNumber 1), (''text'', JString txt),
                   (''authorId'', JString creatorId),
                   (''authorName'', JString (take 8 creatorId)),
                   (''votes'', YMap (load_votes (rawSuggestion_votes suggestion)))]\<rparr>)"

text \<open>The \<open>doc.transact\<close> of \<open>loadProjectState\<close>.\<close>

definition load_transact :: "RawFile list \<Rightarrow> RawSuggestion list \<Rightarrow> Doc \<Rightarrow> Doc" where
  "load_transact fs ss d =
     fold load_suggestion ss
       (fold load_file fs
          (d\<lparr>editor_files := [], file_tree_nodes := [], file_tree_roots := [],
             editor_suggestions := []\<rparr>))"

text \<open>
  \<open>loadProjectState\<close>: the permissions map it resolves to and the document as rebuilt,
  or the error it rejects with. There is no \<open>try\<close> in its body: a rejected store call
  rejects the whole call.
\<close>

definition loadProjectState ::
  "bool \<Rightarrow> LoadResponses \<Rightarrow> Doc \<Rightarrow> exn + ((string \<rightharpoonup> Role) \<times> Doc)" where
  "loadProjectState connected rs d =
     (if \<not> connected then Inr (Map.empty, d)
      else
        (case updateOne_response rs of
           Some e \<Rightarrow> Inl e
         | None \<Rightarrow>
             (case findById_response rs of
                Inl e \<Rightarrow> Inl e
              | Inr project \<Rightarrow>
                  (case findFiles_response rs of
                     Inl e \<Rightarrow> Inl e
                   | Inr fs \<Rightarrow>
                       (case findSuggestions_response rs of
                          Inl e \<Rightarrow> Inl e
                        | Inr ss \<Rightarrow>
                            Inr (new_Map (permissionEntries_of project),
                                 load_transact fs ss d))))))"

text \<open>
  \<open>ensureDbConnection\<close>, first call: no URI gives \<open>false\<close>; a failed
  \<open>mongoose.connect\<close> is caught, logged and gives \<open>false\<close>.
\<close>

definition ensureDbConnection :: "string option \<Rightarrow> exn option \<Rightarrow> bool" where
  "ensureDbConnection mongoUri connect_outcome =
     (case mongoUri of
        None \<Rightarrow> False
      | Some uri \<Rightarrow>
          (if uri = [] then False
           else (case connect_outcome of None \<Rightarrow> True | Some e \<Rightarrow> False)))"

section \<open>Rooms and the persist scheduler\<close>

type_synonym socket = nat

datatype ReadyState = CONNECTING | OPEN | CLOSING | CLOSED

text \<open>The presence registry: client id to (clock, state).\<close>

type_synonym Awareness = "(nat \<times> nat \<times> string) list"

record Room =
  doc :: Doc
  awareness :: Awareness
  sockets :: "socket list"
  persistTimer :: "nat option"
  persistInFlight :: bool
  persistRequested :: bool
  permissions :: "string \<rightharpoonup> Role"

definition empty_Doc :: Doc where
  "empty_Doc = \<lparr>editor_files = [], file_tree_nodes = [], file_tree_roots = [],
                editor_suggestions = []\<rparr>"

definition createRoom :: Room where
  "createRoom = \<lparr>doc = empty_Doc, awareness = [], sockets = [], persistTimer = None,
                 persistInFlight = False, persistRequested = False,
                 permissions = Map.empty\<rparr>"

definition getEffectiveRole :: "Room \<Rightarrow> AuthTokenPayload \<Rightarrow> Role" where
  "getEffectiveRole room user =
     (case permissions room (userId user) of Some r \<Rightarrow> r | None \<Rightarrow> role user)"

text \<open>A timer is the delay it was armed with.\<close>

definition scheduleProjectPersist :: "Room \<Rightarrow> Room" where
  "scheduleProjectPersist room =
     (let room1 = room\<lparr>persistRequested := True\<rparr>
      in case persistTimer room1 of
           Some t \<Rightarrow> room1
         | None \<Rightarrow> room1\<lparr>persistTimer := Some 1200\<rparr>)"

text \<open>
  \<open>flushProjectPersist\<close> is an async function with one \<open>await\<close>. \<open>flush_enter\<close> is its
  body up to the \<open>await persistProjectState(...)\<close>: the flag says whether
  \<open>persistProjectState\<close> was called. \<open>flush_resume\<close> is the rest of the body, run when
  that call has settled (\<open>Some e\<close>: rejected with \<open>e\<close>).
\<close>

definition flush_enter :: "Room \<Rightarrow> Room \<times> bool" where
  "flush_enter room =
     (if persistInFlight room then (room\<lparr>persistRequested := True\<rparr>, False)
      else if \<not> persistRequested room then (room, False)
      else (room\<lparr>persistInFlight := True, persistRequested := False\<rparr>, True))"

definition flush_resume :: "exn option \<Rightarrow> Room \<Rightarrow> Room" where
  "flush_resume outcome room =
     (let room1 = (case outcome of Some e \<Rightarrow> room\<lparr>persistRequested := True\<rparr> | None \<Rightarrow> room);
          room2 = room1\<lparr>persistInFlight := False\<rparr>
      in if persistRequested room2 \<and> persistTimer room2 = None
         then room2\<lparr>persistTimer := Some 600\<rparr>
         else room2)"

text \<open>
  One room under the events that reach its scheduler. \<open>calls\<close> counts the
  \<open>persistProjectState\<close> calls that have started and not settled.
\<close>

record Scheduler =
  sched_room :: Room
  calls :: nat

datatype sched_event =
    Schedule
  | TimerFires
  | FinalFlush
  | PersistSettles "exn option"

text \<open>
  \<open>Schedule\<close>: a document update or an approval calls \<open>scheduleProjectPersist\<close>.
  \<open>TimerFires\<close>: the timer callback clears the timer and calls \<open>flushProjectPersist\<close>.
  \<open>FinalFlush\<close>: the last socket left, or the server shuts down: the timer is cancelled,
  \<open>persistRequested\<close> is set and \<open>flushProjectPersist\<close> is called.
  \<open>PersistSettles\<close>: a started \<open>persistProjectState\<close> call settles and the flush
  that awaits it resumes. An event that cannot happen in the state gives \<open>None\<close>.
\<close>

definition start_flush :: "Scheduler \<Rightarrow> Scheduler" where
  "start_flush s =
     (let (room', called) = flush_enter (sched_room s)
      in s\<lparr>sched_room := room', calls := (if called then calls s + 1 else calls s)\<rparr>)"

fun sched_step :: "sched_event \<Rightarrow> Scheduler \<Rightarrow> Scheduler option" where
  "sched_step Schedule s = Some (s\<lparr>sched_room := scheduleProjectPersist (sched_room s)\<rparr>)"
| "sched_step TimerFires s =
     (case persistTimer (sched_room s) of
        None \<Rightarrow> None
      | Some t \<Rightarrow> Some (start_flush (s\<lparr>sched_room := (sched_room s)\<lparr>persistTimer := None\<rparr>\<rparr>)))"
| "sched_step FinalFlush s =
     Some (start_flush
       (s\<lparr>sched_room := (sched_room s)\<lparr>persistTimer := None, persistRequested := True\<rparr>\<rparr>))"
| "sched_step (PersistSettles outcome) s =
     (if calls s = 0 then None
      else Some (s\<lparr>sched_room := flush_resume outcome (sched_room s), calls := calls s - 1\<rparr>))"

fun sched_run :: "sched_event list \<Rightarrow> Scheduler \<Rightarrow> Scheduler option" where
  "sched_run [] s = Some s"
| "sched_run (e # es) s = (case sched_step e s of None \<Rightarrow> None | Some s' \<Rightarrow> sched_run es s')"

definition sched_init :: Scheduler where
  "sched_init = \<lparr>sched_room = createRoom, calls = 0\<rparr>"

section \<open>The room registry\<close>

text \<open>
  Room objects live in a heap, so that two references can be told to be the same object.
  \<open>rooms\<close> and \<open>pendingRooms\<close> are the two module-level maps; a promise is a number.
  \<open>creating\<close> holds the creation closures suspended at \<open>await loadProjectState(...)\<close>,
  each with the room id and the room it created; \<open>settled\<close> holds the promises that
  have resolved (to a room) or rejected (with an error). \<open>issued\<close> records what every
  call of \<open>getOrCreateRoom\<close> returned.
\<close>

datatype ticket = Resolved nat | Follows nat

record Registry =
  heap :: "nat \<rightharpoonup> Room"
  rooms :: "string \<rightharpoonup> nat"
  pendingRooms :: "string \<rightharpoonup> nat"
  creating :: "nat \<rightharpoonup> string \<times> nat"
  settled :: "nat \<rightharpoonup> exn + nat"
  next_room :: nat
  next_promise :: nat
  issued :: "(string \<times> ticket) list"

definition registry_init :: Registry where
  "registry_init = \<lparr>heap = Map.empty, rooms = Map.empty, pendingRooms = Map.empty,
     creating = Map.empty, settled = Map.empty, next_room = 0, next_promise = 0, issued = []\<rparr>"

text \<open>
  \<open>getOrCreateRoom\<close> up to its return. In the third case the creation closure has run
  to its \<open>await\<close> (it has created the room) before \<open>pendingRooms.set\<close>.
\<close>

definition getOrCreateRoom :: "string \<Rightarrow> Registry \<Rightarrow> Registry \<times> ticket" where
  "getOrCreateRoom roomId reg =
     (case rooms reg roomId of
        Some existingRoom \<Rightarrow> (reg, Resolved existingRoom)
      | None \<Rightarrow>
          (case pendingRooms reg roomId of
             Some pendingRoom \<Rightarrow> (reg, Follows pendingRoom)
           | None \<Rightarrow>
               (let newRoom = next_room reg;
                    creatingRoom = next_promise reg
                in (reg\<lparr>heap := (heap reg)(newRoom \<mapsto> createRoom),
                        creating := (creating reg)(creatingRoom \<mapsto> (roomId, newRoom)),
                        pendingRooms := (pendingRooms reg)(roomId \<mapsto> creatingRoom),
                        next_room := newRoom + 1,
                        next_promise := creatingRoom + 1\<rparr>,
                    Follows creatingRoom))))"

text \<open>
  The creation closure resumes when \<open>loadProjectState\<close> has settled: the \<open>try\<close> body
  on success, and the \<open>finally\<close> in both cases.
\<close>

definition creation_resumes ::
  "nat \<Rightarrow> exn + ((string \<rightharpoonup> Role) \<times> Doc) \<Rightarrow> Registry \<Rightarrow> Registry option" where
  "creation_resumes creatingRoom loaded reg =
     (case creating reg creatingRoom of
        None \<Rightarrow> None
      | Some (roomId, newRoom) \<Rightarrow>
          (case loaded of
             Inr (persistedPermissions, loadedDoc) \<Rightarrow>
               Some (reg\<lparr>heap := (case heap reg newRoom of
                                     None \<Rightarrow> heap reg
                                   | Some r \<Rightarrow> (heap reg)(newRoom \<mapsto>
                                       r\<lparr>doc := loadedDoc, permissions := persistedPermissions\<rparr>)),
                         rooms := (rooms reg)(roomId \<mapsto> newRoom),
                         pendingRooms := (pendingRooms reg)(roomId := None),
                         creating := (creating reg)(creatingRoom := None),
                         settled := (settled reg)(creatingRoom \<mapsto> Inr newRoom)\<rparr>)
           | Inl e \<Rightarrow>
               Some (reg\<lparr>pendingRooms := (pendingRooms reg)(roomId := None),
                         creating := (creating reg)(creatingRoom := None),
                         settled := (settled reg)(creatingRoom \<mapsto> Inl e)\<rparr>)))"

text \<open>
  The events on the registry. \<open>Call\<close>: some handler calls \<open>getOrCreateRoom\<close>.
  \<open>LoadSettles\<close>: the \<open>loadProjectState\<close> call of a suspended creation settles, with
  what the store answered. \<open>RoomRemoved\<close>: the end of a room's teardown,
  \<open>rooms.delete(roomId)\<close>.
\<close>

datatype registry_event =
    Call string
  | LoadSettles nat bool LoadResponses
  | RoomRemoved string

fun registry_step :: "registry_event \<Rightarrow> Registry \<Rightarrow> Registry option" where
  "registry_step (Call roomId) reg =
     (let (reg', t) = getOrCreateRoom roomId reg
      in Some (reg'\<lparr>issued := issued reg' @ [(roomId, t)]\<rparr>))"
| "registry_step (LoadSettles creatingRoom connected rs) reg =
     (case creating reg creatingRoom of
        None \<Rightarrow> None
      | Some (roomId, newRoom) \<Rightarrow>
          (case heap reg newRoom of
             None \<Rightarrow> None
           | Some r \<Rightarrow>
               creation_resumes creatingRoom (loadProjectState connected rs (doc r)) reg))"
| "registry_step (RoomRemoved roomId) reg = Some (reg\<lparr>rooms := (rooms reg)(roomId := None)\<rparr>)"

fun registry_run :: "registry_event list \<Rightarrow> Registry \<Rightarrow> Registry option" where
  "registry_run [] reg = Some reg"
| "registry_run (e # es) reg =
     (case registry_step e reg of None \<Rightarrow> None | Some reg' \<Rightarrow> registry_run es reg')"

text \<open>
  The rooms that are live under a room id: the one registered in \<open>rooms\<close> and the ones
  that suspended creations hold.
\<close>

definition live_rooms :: "Registry \<Rightarrow> string \<Rightarrow> nat set" where
  "live_rooms reg roomId =
     {a. rooms reg roomId = Some a} \<union> {a. \<exists>p. creating reg p = Some (roomId, a)}"

text \<open>
  What holds of every registry state that is reached: a pending promise belongs to an id
  with no registered room and to exactly one suspended creation, a suspended creation is
  the pending one of its id and has not settled, and a caller whose promise has not
  settled waits on the pending promise of its id.
\<close>

definition registry_inv :: "Registry \<Rightarrow> bool" where
  "registry_inv reg =
     ((\<forall>rid p. pendingRooms reg rid = Some p \<longrightarrow>
         rooms reg rid = None \<and> (\<exists>a. creating reg p = Some (rid, a)))
      \<and> (\<forall>p rid a. creating reg p = Some (rid, a) \<longrightarrow>
         pendingRooms reg rid = Some p \<and> settled reg p = None \<and> p < next_promise reg \<and>
         heap reg a \<noteq> None)
      \<and> (\<forall>p v. settled reg p = Some v \<longrightarrow> p < next_promise reg)
      \<and> (\<forall>rid p. (rid, Follows p) \<in> set (issued reg) \<longrightarrow>
         p < next_promise reg \<and> (settled reg p = None \<longrightarrow> pendingRooms reg rid = Some p)))"

section \<open>The connection handler\<close>

type_synonym byte = "8 word"

definition MESSAGE_TYPE_SYNC :: byte where
  "MESSAGE_TYPE_SYNC = 0"

definition MESSAGE_TYPE_AWARENESS :: byte where
  "MESSAGE_TYPE_AWARENESS = 1"

text \<open>What the server hands to a socket: \<open>socket.send\<close> and \<open>socket.close\<close>.\<close>

datatype frame = Text string | Binary "byte list"

datatype action = Send socket frame | Close socket nat string


text \<open>A received frame: \<open>rawData.toString()\<close> when \<open>isBinary\<close> is false, the bytes otherwise.\<close>

datatype message = TextMessage string | BinaryMessage "byte list"

record SocketContext =
  roomId :: string
  awarenessClientIds :: "nat list"
  user :: AuthTokenPayload

text \<open>
  The libraries the handler calls, as parameters: \<open>JSON\<close>, Yjs, y-protocols and lib0.
  \<open>Y_applyUpdate\<close> gives the document after the update and the payload of the
  \<open>update\<close> event it emits, if it emits one. \<open>Y_transact\<close> gives the payload of the
  \<open>update\<close> event of a local transaction that turns the first document into the
  second. \<open>applyAwarenessUpdate\<close> gives the presence registry after the update and the
  clients it reports as added, updated or removed. A decoder is the bytes not yet read.
  \<open>Inl\<close> is a throw.
\<close>

record Lib =
  JSON_parse :: "string \<Rightarrow> jsval option"
  JSON_stringify :: "jsval \<Rightarrow> string"
  Y_applyUpdate :: "Doc \<Rightarrow> byte list \<Rightarrow> exn + (Doc \<times> byte list option)"
  Y_transact :: "Doc \<Rightarrow> Doc \<Rightarrow> byte list option"
  Y_encodeStateAsUpdate :: "Doc \<Rightarrow> byte list"
  applyAwarenessUpdate :: "Awareness \<Rightarrow> byte list \<Rightarrow> exn + (Awareness \<times> nat list)"
  encodeAwarenessUpdate :: "Awareness \<Rightarrow> nat list \<Rightarrow> byte list"
  readVarUint :: "byte list \<Rightarrow> exn + (nat \<times> byte list)"
  readVarString :: "byte list \<Rightarrow> exn + (string \<times> byte list)"

text \<open>
  \<open>readVarUint\<close> as lib0 implements it: seven bits per byte, least significant first,
  the high bit marking a continuation; it throws at the end of the array.
\<close>

fun lib0_readVarUint_loop :: "byte list \<Rightarrow> nat \<Rightarrow> nat \<Rightarrow> exn + (nat \<times> byte list)" where
  "lib0_readVarUint_loop [] num mult = Inl UnexpectedEndOfArray"
| "lib0_readVarUint_loop (r # rest) num mult =
     (let num' = num + unat (r AND 127) * mult
      in if r < 128 then Inr (num', rest)
         else if num' > 9007199254740991 then Inl IntegerOutOfRange
         else lib0_readVarUint_loop rest num' (mult * 128))"

definition lib0_readVarUint :: "byte list \<Rightarrow> exn + (nat \<times> byte list)" where
  "lib0_readVarUint decoder = lib0_readVarUint_loop decoder 0 1"

definition encodeMessage :: "byte \<Rightarrow> byte list \<Rightarrow> byte list" where
  "encodeMessage type payload = type # payload"

definition parseMessage :: "byte list \<Rightarrow> (byte \<times> byte list) option" where
  "parseMessage data = (case data of [] \<Rightarrow> None | type # payload \<Rightarrow> Some (type, payload))"

text \<open>The \<open>for\<close> loop of \<open>readAwarenessClientIds\<close>, with the iterations left to run.\<close>

fun read_clients :: "Lib \<Rightarrow> nat \<Rightarrow> byte list \<Rightarrow> nat list \<Rightarrow> exn + nat list" where
  "read_clients lib 0 decoder clientIds = Inr clientIds"
| "read_clients lib (Suc n) decoder clientIds =
     (case readVarUint lib decoder of
        Inl e \<Rightarrow> Inl e
      | Inr (clientId, d1) \<Rightarrow>
          (case readVarUint lib d1 of
             Inl e \<Rightarrow> Inl e
           | Inr (clock, d2) \<Rightarrow>
               (case readVarString lib d2 of
                  Inl e \<Rightarrow> Inl e
                | Inr (state, d3) \<Rightarrow> read_clients lib n d3 (clientIds @ [clientId]))))"

definition readAwarenessClientIds :: "Lib \<Rightarrow> byte list \<Rightarrow> exn + nat list" where
  "readAwarenessClientIds lib update =
     (case readVarUint lib update of
        Inl e \<Rightarrow> Inl e
      | Inr (clientCount, decoder) \<Rightarrow> read_clients lib clientCount decoder [])"

text \<open>
  \<open>broadcast\<close> and \<open>broadcastText\<close>: the sends they make, in the order of
  \<open>room.sockets\<close>. \<open>rs\<close> is the \<open>readyState\<close> of every socket.
\<close>

definition broadcast ::
  "(socket \<Rightarrow> ReadyState) \<Rightarrow> Room \<Rightarrow> byte \<Rightarrow> byte list \<Rightarrow> socket option \<Rightarrow> action list" where
  "broadcast rs room type payload exclude =
     (let message = encodeMessage type payload
      in map (\<lambda>client. Send client (Binary message))
           (filter (\<lambda>client. Some client \<noteq> exclude \<and> rs client = OPEN) (sockets room)))"

definition broadcastText ::
  "(socket \<Rightarrow> ReadyState) \<Rightarrow> Room \<Rightarrow> string \<Rightarrow> socket option \<Rightarrow> action list" where
  "broadcastText rs room payload exclude =
     map (\<lambda>client. Send client (Text payload))
       (filter (\<lambda>client. Some client \<noteq> exclude \<and> rs client = OPEN) (sockets room))"

text \<open>
  \<open>parseIncomingChatMessage\<close>, giving the trimmed text. \<open>JSON.parse\<close> throwing, and the
  property access on \<open>null\<close> throwing, are caught and give \<open>null\<close>.
\<close>

definition parseIncomingChatMessage :: "(string \<Rightarrow> jsval option) \<Rightarrow> string \<Rightarrow> string option" where
  "parseIncomingChatMessage parse data =
     (case parse data of
        None \<Rightarrow> None
      | Some JNull \<Rightarrow> None
      | Some (JObject parsed) \<Rightarrow>
          (if get_field parsed ''type'' \<noteq> JString ''chat'' then None
           else
             (case get_field parsed ''text'' of
                JString t \<Rightarrow> (let txt = trim t in if length txt = 0 then None else Some txt)
              | _ \<Rightarrow> None))
      | Some _ \<Rightarrow> None)"

text \<open>
  The state a message handler works on: the room its closure holds, the socket contexts,
  every socket's \<open>readyState\<close>, and what has been handed to the sockets so far.
\<close>

record Server =
  handler_room :: Room
  socketContexts :: "socket \<rightharpoonup> SocketContext"
  readyState :: "socket \<Rightarrow> ReadyState"
  outbox :: "action list"

text \<open>The two observers that \<open>createRoom\<close> registers.\<close>

definition on_doc_update :: "byte list \<Rightarrow> socket option \<Rightarrow> Server \<Rightarrow> Server" where
  "on_doc_update update origin s =
     s\<lparr>outbox := outbox s @ broadcast (readyState s) (handler_room s) MESSAGE_TYPE_SYNC update origin,
       handler_room := scheduleProjectPersist (handler_room s)\<rparr>"

definition on_awareness_update :: "Lib \<Rightarrow> nat list \<Rightarrow> socket option \<Rightarrow> Server \<Rightarrow> Server" where
  "on_awareness_update lib changedClients origin s =
     (if length changedClients = 0 then s
      else s\<lparr>outbox := outbox s @
                broadcast (readyState s) (handler_room s) MESSAGE_TYPE_AWARENESS
                  (encodeAwarenessUpdate lib (awareness (handler_room s)) changedClients) origin\<rparr>)"

definition permission_error :: jsval where
  "permission_error =
     JObject [(''type'', JString ''error''),
              (''message'', JString ''insufficient permissions for editing'')]"

definition outgoingChatMessage :: "string \<Rightarrow> AuthTokenPayload \<Rightarrow> string \<Rightarrow> string \<Rightarrow> jsval" where
  "outgoingChatMessage uuid sender txt sentAt =
     JObject [(''type'', JString ''chat''), (''id'', JString uuid),
              (''userId'', JString (userId sender)), (''username'', JString (username sender)),
              (''text'', JString txt), (''sentAt'', JString sentAt)]"

text \<open>\<open>context.awarenessClientIds.add(id)\<close> for every id, on a set kept in insertion order.\<close>

definition add_all :: "nat list \<Rightarrow> nat list \<Rightarrow> nat list" where
  "add_all ids s = fold (\<lambda>i acc. if i \<in> set acc then acc else acc @ [i]) ids s"

text \<open>The text branch of the \<open>message\<close> handler; \<open>uuid\<close> and \<open>sentAt\<close> are
  \<open>randomUUID()\<close> and \<open>new Date().toISOString()\<close>.\<close>

definition on_text :: "Lib \<Rightarrow> string \<Rightarrow> string \<Rightarrow> socket \<Rightarrow> string \<Rightarrow> Server \<Rightarrow> Server \<times> exn option" where
  "on_text lib uuid sentAt socket data s =
     (if data = ''ping'' then (s\<lparr>outbox := outbox s @ [Send socket (Text ''pong'')]\<rparr>, None)
      else
        (case socketContexts s socket of
           None \<Rightarrow> (s, None)
         | Some context \<Rightarrow>
             (case parseIncomingChatMessage (JSON_parse lib) data of
                None \<Rightarrow> (s, None)
              | Some txt \<Rightarrow>
                  (s\<lparr>outbox := outbox s @
                       broadcastText (readyState s) (handler_room s)
                         (JSON_stringify lib (outgoingChatMessage uuid (user context) txt sentAt))
                         None\<rparr>,
                   None))))"

text \<open>The SYNC branch.\<close>

definition on_sync :: "Lib \<Rightarrow> socket \<Rightarrow> byte list \<Rightarrow> Server \<Rightarrow> Server \<times> exn option" where
  "on_sync lib socket payload s =
     (case socketContexts s socket of
        None \<Rightarrow> (s, None)
      | Some context \<Rightarrow>
          (let currentRole = getEffectiveRole (handler_room s) (user context)
           in if getRoleRank currentRole < getRoleRank editor
              then (s\<lparr>outbox := outbox s @
                         [Send socket (Text (JSON_stringify lib permission_error))]\<rparr>, None)
              else
                (case Y_applyUpdate lib (doc (handler_room s)) payload of
                   Inl e \<Rightarrow> (s, Some e)
                 | Inr (doc', emitted) \<Rightarrow>
                     (let s1 = s\<lparr>handler_room := (handler_room s)\<lparr>doc := doc'\<rparr>\<rparr>
                      in case emitted of
                           None \<Rightarrow> (s1, None)
                         | Some update \<Rightarrow> (on_doc_update update (Some socket) s1, None)))))"

text \<open>The AWARENESS branch.\<close>

definition on_awareness :: "Lib \<Rightarrow> socket \<Rightarrow> byte list \<Rightarrow> Server \<Rightarrow> Server \<times> exn option" where
  "on_awareness lib socket payload s =
     (let claimed =
            (case socketContexts s socket of
               None \<Rightarrow> Inr s
             | Some context \<Rightarrow>
                 (case readAwarenessClientIds lib payload of
                    Inl e \<Rightarrow> Inl e
                  | Inr ids \<Rightarrow>
                      Inr (s\<lparr>socketContexts := (socketContexts s)(socket \<mapsto>
                             context\<lparr>awarenessClientIds :=
                               add_all ids (awarenessClientIds context)\<rparr>)\<rparr>)))
      in case claimed of
           Inl e \<Rightarrow> (s, Some e)
         | Inr s1 \<Rightarrow>
             (case applyAwarenessUpdate lib (awareness (handler_room s1)) payload of
                Inl e \<Rightarrow> (s1, Some e)
              | Inr (awareness', changedClients) \<Rightarrow>
                  (on_awareness_update lib changedClients (Some socket)
                     (s1\<lparr>handler_room := (handler_room s1)\<lparr>awareness := awareness'\<rparr>\<rparr>),
                   None)))"

text \<open>
  The \<open>message\<close> handler of a socket: the state it leaves and the exception that
  escapes it, if one does.
\<close>

definition on_message ::
  "Lib \<Rightarrow> string \<Rightarrow> string \<Rightarrow> socket \<Rightarrow> message \<Rightarrow> Server \<Rightarrow> Server \<times> exn option" where
  "on_message lib uuid sentAt socket msg s =
     (case msg of
        TextMessage data \<Rightarrow> on_text lib uuid sentAt socket data s
      | BinaryMessage raw \<Rightarrow>
          (case parseMessage raw of
             None \<Rightarrow> (s, None)
           | Some (type, payload) \<Rightarrow>
               (if type = MESSAGE_TYPE_SYNC then on_sync lib socket payload s
                else if type = MESSAGE_TYPE_AWARENESS then on_awareness lib socket payload s
                else (s, None))))"

subsection \<open>Accepting a connection\<close>






definition role_name :: "Role \<Rightarrow> string" where
  "role_name r = (case r of viewer \<Rightarrow> ''viewer'' | editor \<Rightarrow> ''editor'' | admin \<Rightarrow> ''admin'')"

definition user_json :: "AuthTokenPayload \<Rightarrow> jsval" where
  "user_json u =
     JObject [(''userId'', JString (userId u)), (''username'', JString (username u)),
              (''role'', JString (role_name (role u)))]"

text \<open>
  The asynchronous part, once \<open>getOrCreateRoom\<close> has settled: a rejection closes the
  socket with 1011; otherwise the socket joins the room and gets the welcome, the full
  document state and, when there is any, the presence state.
\<close>

definition join_room ::
  "Lib \<Rightarrow> socket \<Rightarrow> string \<Rightarrow> AuthTokenPayload \<Rightarrow> exn option \<Rightarrow> Server \<Rightarrow> Server" where
  "join_room lib socket room_id requester init_failure s =
     (case init_failure of
        Some e \<Rightarrow> s\<lparr>outbox := outbox s @ [Close socket 1011 ''room init failed'']\<rparr>
      | None \<Rightarrow>
          (let r = handler_room s;
               r1 = r\<lparr>sockets := (if socket \<in> set (sockets r) then sockets r
                                    else sockets r @ [socket])\<rparr>;
               welcome = JObject [(''type'', JString ''welcome''),
                                  (''message'', JString ''connected''),
                                  (''roomId'', JString room_id), (''user'', user_json requester)];
               existingAwarenessClients = map fst (awareness r1)
           in s\<lparr>handler_room := r1,
                 socketContexts := (socketContexts s)(socket \<mapsto>
                    \<lparr>roomId = room_id, awarenessClientIds = [], user = requester\<rparr>),
                 outbox := outbox s @
                   [Send socket (Text (JSON_stringify lib welcome)),
                    Send socket (Binary (encodeMessage MESSAGE_TYPE_SYNC
                                           (Y_encodeStateAsUpdate lib (doc r1))))] @
                   (if length existingAwarenessClients > 0
                    then [Send socket (Binary (encodeMessage MESSAGE_TYPE_AWARENESS
                            (encodeAwarenessUpdate lib (awareness r1) existingAwarenessClients)))]
                    else [])\<rparr>))"

section \<open>Sockets joining and leaving rooms\<close>

text \<open>
  The registry together with the sockets: the context of every socket, the room object
  that the handlers of a connection hold (\<open>closure_room\<close>), the connections that wait for
  \<open>getOrCreateRoom\<close>, the teardowns suspended at \<open>await flushProjectPersist(...)\<close> (each
  with the room id of the context and the room it tears down), and the rooms whose
  document and presence registry were destroyed. Frames sent are left out here.
\<close>

record World =
  registry :: Registry
  store_connected :: bool
  contexts :: "socket \<rightharpoonup> SocketContext"
  closure_room :: "socket \<rightharpoonup> nat"
  waiting :: "(socket \<times> string \<times> AuthTokenPayload \<times> nat) list"
  teardowns :: "(string \<times> nat) list"
  destroyed :: "nat list"

definition world_init :: "bool \<Rightarrow> World" where
  "world_init connected =
     \<lparr>registry = registry_init, store_connected = connected, contexts = Map.empty,
      closure_room = Map.empty, waiting = [], teardowns = [], destroyed = []\<rparr>"

text \<open>A change to one room object of the heap.\<close>

definition update_room :: "nat \<Rightarrow> (Room \<Rightarrow> Room) \<Rightarrow> World \<Rightarrow> World" where
  "update_room a f w =
     (case heap (registry w) a of
        None \<Rightarrow> w
      | Some r \<Rightarrow> w\<lparr>registry := (registry w)\<lparr>heap := (heap (registry w))(a \<mapsto> f r)\<rparr>\<rparr>)"

text \<open>
  The connection closure once it has its room: \<open>room.sockets.add(socket)\<close> and
  \<open>socketContexts.set(socket, ...)\<close>.
\<close>

definition join_socket :: "socket \<Rightarrow> string \<Rightarrow> AuthTokenPayload \<Rightarrow> nat \<Rightarrow> World \<Rightarrow> World" where
  "join_socket socket room_id requester a w =
     (update_room a
        (\<lambda>r. r\<lparr>sockets := (if socket \<in> set (sockets r) then sockets r else sockets r @ [socket])\<rparr>) w)
       \<lparr>contexts := (contexts w)(socket \<mapsto>
           \<lparr>roomId = room_id, awarenessClientIds = [], user = requester\<rparr>),
        closure_room := (closure_room w)(socket \<mapsto> a)\<rparr>"

text \<open>
  The end of the teardown closure: \<open>room.awareness.destroy(); room.doc.destroy();
  rooms.delete(context.roomId)\<close>.
\<close>

definition finish_teardown :: "string \<times> nat \<Rightarrow> World \<Rightarrow> World" where
  "finish_teardown t w =
     w\<lparr>destroyed := destroyed w @ [snd t],
       registry := (registry w)\<lparr>rooms := (rooms (registry w))(fst t := None)\<rparr>\<rparr>"

text \<open>
  A \<open>persistProjectState\<close> call of a room settles: the flush that awaits it resumes, and
  then the teardown that awaits that flush, if there is one.
\<close>

definition persist_settles :: "nat \<Rightarrow> exn option \<Rightarrow> World \<Rightarrow> World" where
  "persist_settles a outcome w =
     (let w1 = update_room a (flush_resume outcome) w;
          resumed = filter (\<lambda>t. snd t = a) (teardowns w1)
      in fold finish_teardown resumed
           (w1\<lparr>teardowns := filter (\<lambda>t. snd t \<noteq> a) (teardowns w1)\<rparr>))"

text \<open>
  \<open>removeSocketFromRoom\<close>. The room is looked up by the room id of the context. When the
  last socket has left, the flush either returns at once (a persist call is in flight)
  and the teardown ends in the same turn, or it calls \<open>persistProjectState\<close>: without a
  store connection that call settles in the same turn, with one the teardown is
  suspended until the call settles.
\<close>

definition removeSocketFromRoom :: "socket \<Rightarrow> World \<Rightarrow> World" where
  "removeSocketFromRoom socket w =
     (case contexts w socket of
        None \<Rightarrow> w
      | Some c \<Rightarrow>
          (case rooms (registry w) (roomId c) of
             None \<Rightarrow> w\<lparr>contexts := (contexts w)(socket := None)\<rparr>
           | Some a \<Rightarrow>
               (case heap (registry w) a of
                  None \<Rightarrow> w\<lparr>contexts := (contexts w)(socket := None)\<rparr>
                | Some r \<Rightarrow>
                    (let r1 = r\<lparr>sockets := removeAll socket (sockets r),
                                awareness := filter (\<lambda>st. fst st \<notin> set (awarenessClientIds c))
                                               (awareness r)\<rparr>;
                         w1 = w\<lparr>contexts := (contexts w)(socket := None)\<rparr>
                     in if length (sockets r1) = 0
                        then
                          (let (r2, called) =
                                 flush_enter (r1\<lparr>persistTimer := None, persistRequested := True\<rparr>);
                               w2 = update_room a (\<lambda>x. r2) w1
                           in if called
                              then
                                (let w3 = w2\<lparr>teardowns := teardowns w2 @ [(roomId c, a)]\<rparr>
                                 in if store_connected w3 then w3 else persist_settles a None w3)
                              else finish_teardown (roomId c, a) w2)
                        else update_room a (\<lambda>x. r1) w1))))"

text \<open>
  The events: a socket is admitted to a room id and calls \<open>getOrCreateRoom\<close>; the load of
  a suspended creation settles and the connections that wait for it join; a socket
  closes; a persist call settles.
\<close>

datatype world_event =
    Connects socket string AuthTokenPayload
  | LoadCompletes nat LoadResponses
  | Closes socket
  | PersistCompletes nat "exn option"

fun world_step :: "world_event \<Rightarrow> World \<Rightarrow> World option" where
  "world_step (Connects socket room_id requester) w =
     (let (reg', t) = getOrCreateRoom room_id (registry w);
          w1 = w\<lparr>registry := reg'\<lparr>issued := issued reg' @ [(room_id, t)]\<rparr>\<rparr>
      in case t of
           Resolved a \<Rightarrow> Some (join_socket socket room_id requester a w1)
         | Follows p \<Rightarrow> Some (w1\<lparr>waiting := waiting w1 @ [(socket, room_id, requester, p)]\<rparr>))"
| "world_step (LoadCompletes p rs) w =
     (case registry_step (LoadSettles p (store_connected w) rs) (registry w) of
        None \<Rightarrow> None
      | Some reg' \<Rightarrow>
          (let w1 = w\<lparr>registry := reg',
                      waiting := filter (\<lambda>(s, i, u, q). q \<noteq> p) (waiting w)\<rparr>;
               woken = filter (\<lambda>(s, i, u, q). q = p) (waiting w)
           in case settled reg' p of
                Some (Inr a) \<Rightarrow> Some (fold (\<lambda>(s, i, u, q). join_socket s i u a) woken w1)
              | _ \<Rightarrow> Some w1))"
| "world_step (Closes socket) w = Some (removeSocketFromRoom socket w)"
| "world_step (PersistCompletes a outcome) w =
     (case heap (registry w) a of
        None \<Rightarrow> None
      | Some r \<Rightarrow> if persistInFlight r then Some (persist_settles a outcome w) else None)"

fun world_run :: "world_event list \<Rightarrow> World \<Rightarrow> World option" where
  "world_run [] w = Some w"
| "world_run (e # es) w = (case world_step e w of None \<Rightarrow> None | Some w' \<Rightarrow> world_run es w')"

section \<open>The REST surface\<close>

text \<open>A handler answers with a status and a JSON body, or an exception escapes it.\<close>

datatype outcome = Responded nat jsval | Threw exn

definition error_body :: "string \<Rightarrow> jsval" where
  "error_body msg = JObject [(''error'', JString msg)]"

definition extractBearerToken :: "string option \<Rightarrow> string option" where
  "extractBearerToken authorizationHeader =
     (case authorizationHeader of
        None \<Rightarrow> None
      | Some header \<Rightarrow>
          (if header = [] then None
           else
             (case split_on CHR '' '' header of
                scheme # token # rest \<Rightarrow>
                  (if scheme \<noteq> ''Bearer'' \<or> token = [] then None else Some token)
              | _ \<Rightarrow> None)))"

text \<open>\<open>token ? verifyToken(token) : null\<close>.\<close>

definition authenticate :: "(string \<Rightarrow> jsval option) \<Rightarrow> string option \<Rightarrow> AuthTokenPayload option" where
  "authenticate jwt_verify authorizationHeader =
     (case extractBearerToken authorizationHeader of
        None \<Rightarrow> None
      | Some token \<Rightarrow> verifyToken jwt_verify token)"

text \<open>\<open>req.body?.k\<close>.\<close>

definition body_field :: "jsval \<Rightarrow> string \<Rightarrow> jsval" where
  "body_field body k = (case body of JObject fs \<Rightarrow> get_field fs k | _ \<Rightarrow> JUndefined)"

text \<open>
  \<open>POST /api/projects/:id/permissions\<close>, on the room that \<open>getOrCreateRoom\<close> gave.
  \<open>stored\<close> is how the awaited \<open>setProjectPermission\<close> settles.
\<close>

definition post_permissions ::
  "bool \<Rightarrow> (string \<Rightarrow> jsval option) \<Rightarrow> string option \<Rightarrow> jsval \<Rightarrow> exn option \<Rightarrow> Room \<Rightarrow>
   Room \<times> outcome" where
  "post_permissions isShuttingDown jwt_verify authorizationHeader body stored room =
     (if isShuttingDown then (room, Responded 503 (error_body ''server is shutting down''))
      else
        (case authenticate jwt_verify authorizationHeader of
           None \<Rightarrow> (room, Responded 401 (error_body ''unauthorized''))
         | Some requester \<Rightarrow>
             (case (body_field body ''userId'', isRole (body_field body ''role'')) of
                (JString targetUserId, Some nextRole) \<Rightarrow>
                  (let requesterRole = getEffectiveRole room requester
                   in if requesterRole \<noteq> admin
                      then (room, Responded 403 (error_body ''admin role required''))
                      else
                        (let room' = room\<lparr>permissions := (permissions room)(targetUserId \<mapsto> nextRole)\<rparr>
                         in case stored of
                              Some e \<Rightarrow> (room', Threw e)
                            | None \<Rightarrow>
                                (room', Responded 200
                                   (JObject [(''ok'', JBool True),
                                             (''userId'', JString targetUserId),
                                             (''role'', JString (role_name nextRole))]))))
              | _ \<Rightarrow> (room, Responded 400 (error_body ''userId and valid role are required'')))))"

text \<open>\<open>setProjectPermission\<close> on the store.\<close>

definition setProjectPermission ::
  "bool \<Rightarrow> string \<Rightarrow> string \<Rightarrow> Role \<Rightarrow> nat \<Rightarrow> Store \<Rightarrow> Store" where
  "setProjectPermission connected projectId target r now st =
     (if \<not> connected then st
      else st\<lparr>projects := (projects st)(projectId \<mapsto>
             (case projects st projectId of
                Some p \<Rightarrow> p\<lparr>permissions_field := assoc_set (permissions_field p) target r,
                            updated_at := now\<rparr>
              | None \<Rightarrow> \<lparr>name = projectId, created_at = now, updated_at = now,
                          permissions_field = [(target, r)]\<rparr>))\<rparr>)"

text \<open>
  \<open>POST /api/projects/:id/suggestions/:suggestionId/approve\<close>. The transaction on the
  document fires the document observer with no socket as origin.
\<close>

definition approve_entry :: "string \<Rightarrow> string \<Rightarrow> ymap \<Rightarrow> ymap" where
  "approve_entry approver approvedAt suggestion =
     assoc_set (assoc_set (assoc_set suggestion ''approved'' (JBool True))
                  ''approvedBy'' (JString approver))
       ''approvedAt'' (JString approvedAt)"

definition post_approve ::
  "Lib \<Rightarrow> bool \<Rightarrow> (string \<Rightarrow> jsval option) \<Rightarrow> string option \<Rightarrow> string \<Rightarrow> string \<Rightarrow> Server \<Rightarrow>
   Server \<times> outcome" where
  "post_approve lib isShuttingDown jwt_verify authorizationHeader suggestionId approvedAt s =
     (if isShuttingDown then (s, Responded 503 (error_body ''server is shutting down''))
      else
        (case authenticate jwt_verify authorizationHeader of
           None \<Rightarrow> (s, Responded 401 (error_body ''unauthorized''))
         | Some requester \<Rightarrow>
             (let requesterRole = getEffectiveRole (handler_room s) requester
              in if requesterRole \<noteq> admin
                 then (s, Responded 403 (error_body ''admin role required''))
                 else
                   (let d = doc (handler_room s)
                    in case map_of (editor_suggestions d) suggestionId of
                         None \<Rightarrow> (s, Responded 404 (error_body ''suggestion not found''))
                       | Some suggestion \<Rightarrow>
                           (let d' = d\<lparr>editor_suggestions :=
                                        assoc_set (editor_suggestions d) suggestionId
                                          (approve_entry (userId requester) approvedAt suggestion)\<rparr>;
                                s1 = s\<lparr>handler_room := (handler_room s)\<lparr>doc := d'\<rparr>\<rparr>;
                                s2 = (case Y_transact lib d d' of
                                        None \<Rightarrow> s1
                                      | Some update \<Rightarrow> on_doc_update update None s1);
                                s3 = s2\<lparr>handler_room := scheduleProjectPersist (handler_room s2)\<rparr>
                            in (s3, Responded 200
                                  (JObject [(''ok'', JBool True),
                                            (''suggestionId'', JString suggestionId)])))))))"

section \<open>The specification's effective role and parent walk\<close>

text \<open>
  The effective role in the specification's words: the room's permissions entry for the
  user id when there is one, the role of the token otherwise.
\<close>

definition spec_effectiveRole :: "(string \<rightharpoonup> Role) \<Rightarrow> AuthTokenPayload \<Rightarrow> Role" where
  "spec_effectiveRole perms u = (case perms (userId u) of Some r \<Rightarrow> r | None \<Rightarrow> role u)"






section \<open>Sample inputs\<close>

text \<open>Concrete tokens, libraries, rooms and stores, on which the theorems below are run.\<close>

definition claims_json :: "string \<Rightarrow> string \<Rightarrow> string \<Rightarrow> jsval" where
  "claims_json uid uname r =
     JObject [(''userId'', JString uid), (''username'', JString uname), (''role'', JString r)]"

definition sample_jwt_verify :: "string \<Rightarrow> jsval option" where
  "sample_jwt_verify token =
     (if token = ''t-admin'' then Some (claims_json ''u-admin'' ''admin'' ''admin'')
      else if token = ''t-editor'' then Some (claims_json ''u-ed'' ''editor'' ''editor'')
      else if token = ''t-viewer'' then Some (claims_json ''u-viewer'' ''viewer'' ''viewer'')
      else None)"

definition u_admin :: AuthTokenPayload where
  "u_admin = \<lparr>userId = ''u-admin'', username = ''admin'', role = admin\<rparr>"

definition u_editor :: AuthTokenPayload where
  "u_editor = \<lparr>userId = ''u-ed'', username = ''editor'', role = editor\<rparr>"

definition u_viewer :: AuthTokenPayload where
  "u_viewer = \<lparr>userId = ''u-viewer'', username = ''viewer'', role = viewer\<rparr>"

text \<open>A \<open>JSON.stringify\<close> for objects of strings and booleans without escapes.\<close>

fun sample_stringify :: "jsval \<Rightarrow> string"
  and sample_stringify_fields :: "(string \<times> jsval) list \<Rightarrow> string list" where
  "sample_stringify (JString s) = [CHR 0x22] @ s @ [CHR 0x22]"
| "sample_stringify (JBool b) = (if b then ''true'' else ''false'')"
| "sample_stringify (JObject fs) = ''{'' @ join '','' (sample_stringify_fields fs) @ ''}''"
| "sample_stringify JNull = ''null''"
| "sample_stringify JUndefined = ''null''"
| "sample_stringify (JNumber n) = ''0''"
| "sample_stringify (JArray xs) = ''[]''"
| "sample_stringify (YMap m) = ''{}''"
| "sample_stringify (YArray xs) = ''[]''"
| "sample_stringify (YText t) = [CHR 0x22] @ t @ [CHR 0x22]"
| "sample_stringify_fields [] = []"
| "sample_stringify_fields ((k, v) # rest) =
     ([CHR 0x22] @ k @ [CHR 0x22] @ '':'' @ sample_stringify v) # sample_stringify_fields rest"

text \<open>A \<open>JSON.parse\<close> that knows three texts; on any other it throws.\<close>

definition sample_parse :: "string \<Rightarrow> jsval option" where
  \<open>sample_parse data =
     (if data = ''{"type":"chat","text":"  hello from alice "}''
      then Some (JObject [(''type'', JString ''chat''), (''text'', JString ''  hello from alice '')])
      else if data = ''{"type":"chat","text":"   "}''
      then Some (JObject [(''type'', JString ''chat''), (''text'', JString ''   '')])
      else if data = ''{"type":"chat","text":7}''
      then Some (JObject [(''type'', JString ''chat''), (''text'', JNumber 7)])
      else None)\<close>

definition sample_applyUpdate :: "Doc \<Rightarrow> byte list \<Rightarrow> exn + (Doc \<times> byte list option)" where
  "sample_applyUpdate d u =
     (if u = [] then Inl UnexpectedEndOfArray
      else Inr (d\<lparr>file_tree_roots := file_tree_roots d @ [''applied'']\<rparr>, Some u))"

definition sample_transact :: "Doc \<Rightarrow> Doc \<Rightarrow> byte list option" where
  "sample_transact d d' = (if d = d' then None else Some [7])"

definition sample_encodeStateAsUpdate :: "Doc \<Rightarrow> byte list" where
  "sample_encodeStateAsUpdate d = [0, 0]"

definition sample_applyAwarenessUpdate ::
  "Awareness \<Rightarrow> byte list \<Rightarrow> exn + (Awareness \<times> nat list)" where
  "sample_applyAwarenessUpdate a u = (if u = [] then Inl UnexpectedEndOfArray else Inr (a, []))"

definition sample_encodeAwarenessUpdate :: "Awareness \<Rightarrow> nat list \<Rightarrow> byte list" where
  "sample_encodeAwarenessUpdate a clients = [of_nat (length clients)]"

definition sample_readVarString :: "byte list \<Rightarrow> exn + (string \<times> byte list)" where
  "sample_readVarString decoder =
     (case lib0_readVarUint decoder of
        Inl e \<Rightarrow> Inl e
      | Inr (n, rest) \<Rightarrow>
          (if length rest < n then Inl UnexpectedEndOfArray
           else Inr (map (\<lambda>b. char_of (unat b)) (take n rest), drop n rest)))"

definition sample_lib :: Lib where
  "sample_lib =
     \<lparr>JSON_parse = sample_parse, JSON_stringify = sample_stringify,
      Y_applyUpdate = sample_applyUpdate, Y_transact = sample_transact,
      Y_encodeStateAsUpdate = sample_encodeStateAsUpdate,
      applyAwarenessUpdate = sample_applyAwarenessUpdate,
      encodeAwarenessUpdate = sample_encodeAwarenessUpdate,
      readVarUint = lib0_readVarUint, readVarString = sample_readVarString\<rparr>"

text \<open>
  A room with three sockets: socket 1 belongs to the viewer, socket 2 to the editor and is
  closing, socket 3 to the admin.
\<close>

definition sample_room :: Room where
  "sample_room = createRoom\<lparr>sockets := [1, 2, 3]\<rparr>"

definition sample_context :: "AuthTokenPayload \<Rightarrow> SocketContext" where
  "sample_context u = \<lparr>roomId = ''collab-room'', awarenessClientIds = [], user = u\<rparr>"

definition sample_contexts :: "socket \<rightharpoonup> SocketContext" where
  "sample_contexts sock =
     (if sock = 1 then Some (sample_context u_viewer)
      else if sock = 2 then Some (sample_context u_editor)
      else if sock = 3 then Some (sample_context u_admin)
      else None)"

definition sample_readyState :: "socket \<Rightarrow> ReadyState" where
  "sample_readyState sock = (if sock = 2 then CLOSING else OPEN)"

definition sample_server :: Server where
  "sample_server = \<lparr>handler_room = sample_room, socketContexts = sample_contexts,
                     readyState = sample_readyState, outbox = []\<rparr>"

definition sample_responses :: LoadResponses where
  "sample_responses =
     \<lparr>updateOne_response = None,
      findById_response = Inr (Some (PermissionsObject [(''u-ed'', JString ''admin'')])),
      findFiles_response = Inr [],
      findSuggestions_response = Inr []\<rparr>"







text \<open>
  Four sockets on the room id \<open>r\<close>, with a connected store: 1 joins and leaves; 2 joins and
  leaves while the persist call of the first teardown is in flight; 3 joins; that persist
  call settles; 4 joins.
\<close>

definition race_trace :: "world_event list" where
  "race_trace =
     [Connects 1 ''r'' u_editor, LoadCompletes 0 sample_responses, Closes 1,
      Connects 2 ''r'' u_viewer, Closes 2,
      Connects 3 ''r'' u_editor, LoadCompletes 1 sample_responses,
      PersistCompletes 0 None,
      Connects 4 ''r'' u_viewer, LoadCompletes 2 sample_responses]"


section \<open>Shared lemmas\<close>

lemma getEffectiveRole_spec: "getEffectiveRole room u = spec_effectiveRole (permissions room) u"
  by (simp add: getEffectiveRole_def spec_effectiveRole_def)

lemma sample_server_simps:
  "socketContexts sample_server = sample_contexts"
  "readyState sample_server = sample_readyState"
  "outbox sample_server = []"
  "sockets (handler_room sample_server) = [1, 2, 3]"
  "permissions (handler_room sample_server) = Map.empty"
  "doc (handler_room sample_server) = empty_Doc"
  by (simp_all add: sample_server_def sample_room_def createRoom_def)

lemma sample_verify:
  "verifyToken sample_jwt_verify ''t-admin'' = Some u_admin"
  "verifyToken sample_jwt_verify ''t-editor'' = Some u_editor"
  "verifyToken sample_jwt_verify ''t-viewer'' = Some u_viewer"
  by (simp_all add: verifyToken_def sample_jwt_verify_def claims_json_def get_field_def
      isRole_def u_admin_def u_editor_def u_viewer_def)

lemma sample_authenticate:
  "authenticate sample_jwt_verify (Some ''Bearer t-admin'') = Some u_admin"
  "authenticate sample_jwt_verify (Some ''Bearer t-editor'') = Some u_editor"
  by (simp_all add: authenticate_def extractBearerToken_def sample_verify)

section \<open>Viewer edits\<close>

text \<open>
  C1. A SYNC frame from a socket whose user's effective role ranks below editor leaves the
  whole state as it was, the document included, but for one text frame sent to that
  socket: the JSON of the permission error. Nothing is sent to another socket and no
  exception escapes.
\<close>

theorem viewer_sync_is_dropped:
  assumes ctx: "socketContexts s socket = Some c"
    and low: "getRoleRank (getEffectiveRole (handler_room s) (user c)) < getRoleRank editor"
  shows "on_message lib uuid sentAt socket (BinaryMessage (MESSAGE_TYPE_SYNC # payload)) s =
           (s\<lparr>outbox := outbox s @ [Send socket (Text (JSON_stringify lib permission_error))]\<rparr>, None)
         \<and> doc (handler_room (fst (on_message lib uuid sentAt socket
               (BinaryMessage (MESSAGE_TYPE_SYNC # payload)) s))) = doc (handler_room s)"
  using ctx low by (simp add: on_message_def parseMessage_def on_sync_def)

theorem viewer_sync_is_dropped_witness:
  \<open>socketContexts sample_server 1 = Some (sample_context u_viewer)
   \<and> getRoleRank (getEffectiveRole (handler_room sample_server) (user (sample_context u_viewer)))
       < getRoleRank editor
   \<and> outbox (fst (on_message sample_lib ''id-1'' ''2026-01-01T00:00:00.000Z'' 1
        (BinaryMessage [0, 1, 2, 3]) sample_server))
       = [Send 1 (Text ''{"type":"error","message":"insufficient permissions for editing"}'')]
   \<and> doc (handler_room (fst (on_message sample_lib ''id-1'' ''2026-01-01T00:00:00.000Z'' 1
        (BinaryMessage [0, 1, 2, 3]) sample_server))) = empty_Doc\<close>
proof -
  have c: "socketContexts sample_server 1 = Some (sample_context u_viewer)"
    by (simp add: sample_server_simps sample_contexts_def)
  have l: "getRoleRank (getEffectiveRole (handler_room sample_server) (user (sample_context u_viewer)))
       < getRoleRank editor"
    by (simp add: getEffectiveRole_def sample_server_simps sample_context_def u_viewer_def)
  show ?thesis
    using viewer_sync_is_dropped [OF c l, of sample_lib "''id-1''" "''2026-01-01T00:00:00.000Z''" "[1, 2, 3]"] c l
    by (simp add: MESSAGE_TYPE_SYNC_def sample_server_simps sample_lib_def permission_error_def)
qed

section \<open>The effective role\<close>

text \<open>
  C2. The role that authorization uses is the specification's effective role: the room's
  permissions entry for the user id when present, the token's role otherwise. The SYNC
  gate, the permissions endpoint and the approval endpoint each decide on it, and after
  an admin's permissions request the same equation holds on the updated map, whose only
  change is the entry of the target user.
\<close>

theorem effective_role_decides:
  assumes auth: "authenticate jwt_verify hdr = Some requester"
    and target: "body_field body ''userId'' = JString target"
    and next_role: "isRole (body_field body ''role'') = Some nextRole"
    and ctx: "socketContexts s socket = Some c"
  shows "getEffectiveRole room u = spec_effectiveRole (permissions room) u
    \<and> on_sync lib socket payload s =
           (if getRoleRank (spec_effectiveRole (permissions (handler_room s)) (user c))
                 < getRoleRank editor
            then (s\<lparr>outbox := outbox s @ [Send socket (Text (JSON_stringify lib permission_error))]\<rparr>, None)
            else (case Y_applyUpdate lib (doc (handler_room s)) payload of
                    Inl e \<Rightarrow> (s, Some e)
                  | Inr (doc', emitted) \<Rightarrow>
                      (case emitted of
                         None \<Rightarrow> (s\<lparr>handler_room := (handler_room s)\<lparr>doc := doc'\<rparr>\<rparr>, None)
                       | Some update \<Rightarrow>
                           (on_doc_update update (Some socket)
                              (s\<lparr>handler_room := (handler_room s)\<lparr>doc := doc'\<rparr>\<rparr>), None))))
    \<and> post_permissions False jwt_verify hdr body stored room =
           (if spec_effectiveRole (permissions room) requester \<noteq> admin
            then (room, Responded 403 (error_body ''admin role required''))
            else (room\<lparr>permissions := (permissions room)(target \<mapsto> nextRole)\<rparr>,
                  case stored of
                    Some e \<Rightarrow> Threw e
                  | None \<Rightarrow> Responded 200 (JObject [(''ok'', JBool True),
                              (''userId'', JString target), (''role'', JString (role_name nextRole))])))
    \<and> ((snd (post_approve lib False jwt_verify hdr sid approvedAt s)
            = Responded 403 (error_body ''admin role required''))
         = (spec_effectiveRole (permissions (handler_room s)) requester \<noteq> admin))
    \<and> (spec_effectiveRole (permissions room) requester = admin \<longrightarrow>
         getEffectiveRole (fst (post_permissions False jwt_verify hdr body stored room)) u
           = spec_effectiveRole ((permissions room)(target \<mapsto> nextRole)) u)"
proof -
  have a: "getEffectiveRole room u = spec_effectiveRole (permissions room) u"
    by (rule getEffectiveRole_spec)
  have b: "on_sync lib socket payload s =
           (if getRoleRank (spec_effectiveRole (permissions (handler_room s)) (user c))
                 < getRoleRank editor
            then (s\<lparr>outbox := outbox s @ [Send socket (Text (JSON_stringify lib permission_error))]\<rparr>, None)
            else (case Y_applyUpdate lib (doc (handler_room s)) payload of
                    Inl e \<Rightarrow> (s, Some e)
                  | Inr (doc', emitted) \<Rightarrow>
                      (case emitted of
                         None \<Rightarrow> (s\<lparr>handler_room := (handler_room s)\<lparr>doc := doc'\<rparr>\<rparr>, None)
                       | Some update \<Rightarrow>
                           (on_doc_update update (Some socket)
                              (s\<lparr>handler_room := (handler_room s)\<lparr>doc := doc'\<rparr>\<rparr>), None))))"
    using ctx by (simp add: on_sync_def getEffectiveRole_spec split: sum.splits option.splits)
  have p: "post_permissions False jwt_verify hdr body stored room =
           (if spec_effectiveRole (permissions room) requester \<noteq> admin
            then (room, Responded 403 (error_body ''admin role required''))
            else (room\<lparr>permissions := (permissions room)(target \<mapsto> nextRole)\<rparr>,
                  case stored of
                    Some e \<Rightarrow> Threw e
                  | None \<Rightarrow> Responded 200 (JObject [(''ok'', JBool True),
                              (''userId'', JString target), (''role'', JString (role_name nextRole))])))"
    using auth target next_role
    by (simp add: post_permissions_def getEffectiveRole_spec split: option.splits)
  have q: "(snd (post_approve lib False jwt_verify hdr sid approvedAt s)
            = Responded 403 (error_body ''admin role required''))
         = (spec_effectiveRole (permissions (handler_room s)) requester \<noteq> admin)"
    using auth
    by (simp add: post_approve_def getEffectiveRole_spec Let_def error_body_def split: option.splits)
  have r: "spec_effectiveRole (permissions room) requester = admin \<longrightarrow>
         getEffectiveRole (fst (post_permissions False jwt_verify hdr body stored room)) u
           = spec_effectiveRole ((permissions room)(target \<mapsto> nextRole)) u"
    by (simp add: p getEffectiveRole_spec)
  from a b p q r show ?thesis by blast
qed

theorem effective_role_decides_witness:
  "authenticate sample_jwt_verify (Some ''Bearer t-admin'') = Some u_admin
   \<and> body_field (JObject [(''userId'', JString ''u-viewer''), (''role'', JString ''editor'')])
        ''userId'' = JString ''u-viewer''
   \<and> isRole (body_field (JObject [(''userId'', JString ''u-viewer''), (''role'', JString ''editor'')])
        ''role'') = Some editor
   \<and> socketContexts sample_server 1 = Some (sample_context u_viewer)
   \<and> getEffectiveRole sample_room u_viewer = viewer
   \<and> snd (post_permissions False sample_jwt_verify (Some ''Bearer t-admin'')
        (JObject [(''userId'', JString ''u-viewer''), (''role'', JString ''editor'')]) None sample_room)
       = Responded 200 (JObject [(''ok'', JBool True), (''userId'', JString ''u-viewer''),
                                 (''role'', JString ''editor'')])
   \<and> getEffectiveRole (fst (post_permissions False sample_jwt_verify (Some ''Bearer t-admin'')
        (JObject [(''userId'', JString ''u-viewer''), (''role'', JString ''editor'')]) None sample_room))
        u_viewer = editor
   \<and> snd (post_approve sample_lib False sample_jwt_verify (Some ''Bearer t-admin'') ''s1''
        ''2026-01-01T00:00:00.000Z'' sample_server)
       \<noteq> Responded 403 (error_body ''admin role required'')"
proof -
  have h1: "authenticate sample_jwt_verify (Some ''Bearer t-admin'') = Some u_admin"
    by (rule sample_authenticate)
  have h2: "body_field (JObject [(''userId'', JString ''u-viewer''), (''role'', JString ''editor'')])
        ''userId'' = JString ''u-viewer''"
    by (simp add: body_field_def get_field_def)
  have h3: "isRole (body_field (JObject [(''userId'', JString ''u-viewer''), (''role'', JString ''editor'')])
        ''role'') = Some editor"
    by (simp add: body_field_def get_field_def isRole_def)
  have h4: "socketContexts sample_server 1 = Some (sample_context u_viewer)"
    by (simp add: sample_server_simps sample_contexts_def)
  have perms: "permissions sample_room = Map.empty"
    by (simp add: sample_room_def createRoom_def)
  show ?thesis
    using effective_role_decides [OF h1 h2 h3 h4, of sample_room u_viewer sample_lib "[]" None
        "''s1''" "''2026-01-01T00:00:00.000Z''"] h1 h2 h3 h4
    by (simp add: perms sample_server_simps spec_effectiveRole_def getEffectiveRole_def
        role_name_def u_admin_def u_viewer_def)
qed

section \<open>Chat\<close>







section \<open>Admission\<close>





section \<open>Loading a project\<close>

text \<open>
  C7, amended. \<open>loadProjectState\<close> gives an empty permissions map, without an error and
  without touching the document, when there is no store connection; a connection attempt
  that fails is swallowed and counts as no connection. With a connection, a store call
  that fails is not swallowed: the call rejects with the error of the first failing
  store call.
\<close>

theorem load_store_errors_propagate:
  "ensureDbConnection mongoUri (Some err) = False
   \<and> ensureDbConnection None outcome = False
   \<and> loadProjectState False rs d = Inr (Map.empty, d)
   \<and> (updateOne_response rs = Some e \<longrightarrow> loadProjectState True rs d = Inl e)
   \<and> (updateOne_response rs = None \<and> findById_response rs = Inl e \<longrightarrow>
        loadProjectState True rs d = Inl e)
   \<and> (updateOne_response rs = None \<and> findById_response rs = Inr project \<and>
        findFiles_response rs = Inl e \<longrightarrow> loadProjectState True rs d = Inl e)
   \<and> (updateOne_response rs = None \<and> findById_response rs = Inr project \<and>
        findFiles_response rs = Inr fs \<and> findSuggestions_response rs = Inl e \<longrightarrow>
        loadProjectState True rs d = Inl e)
   \<and> (updateOne_response rs = None \<and> findById_response rs = Inr project \<and>
        findFiles_response rs = Inr fs \<and> findSuggestions_response rs = Inr ss \<longrightarrow>
        loadProjectState True rs d =
          Inr (new_Map (permissionEntries_of project), load_transact fs ss d))"
  by (simp add: loadProjectState_def ensureDbConnection_def split: option.splits)

theorem load_store_errors_propagate_witness:
  "updateOne_response (sample_responses\<lparr>findFiles_response := Inl (MongoError FileFind)\<rparr>) = None
   \<and> findById_response (sample_responses\<lparr>findFiles_response := Inl (MongoError FileFind)\<rparr>)
        = Inr (Some (PermissionsObject [(''u-ed'', JString ''admin'')]))
   \<and> findFiles_response (sample_responses\<lparr>findFiles_response := Inl (MongoError FileFind)\<rparr>)
        = Inl (MongoError FileFind)
   \<and> loadProjectState True (sample_responses\<lparr>findFiles_response := Inl (MongoError FileFind)\<rparr>)
        empty_Doc = Inl (MongoError FileFind)
   \<and> loadProjectState False sample_responses empty_Doc = Inr (Map.empty, empty_Doc)"
  using load_store_errors_propagate [of "Some ''mongodb://db''" "MongoError FileFind" None
      "sample_responses\<lparr>findFiles_response := Inl (MongoError FileFind)\<rparr>" empty_Doc
      "MongoError FileFind" "Some (PermissionsObject [(''u-ed'', JString ''admin'')])" "[]" "[]"]
    load_store_errors_propagate [of "Some ''mongodb://db''" "MongoError FileFind" None
      sample_responses empty_Doc "MongoError FileFind" None "[]" "[]"]
  by (simp add: sample_responses_def)

text \<open>
  The claim as stated fails: with a connection, a failing project upsert makes
  \<open>loadProjectState\<close> reject; no permissions map is returned.
\<close>

theorem load_rejects_counterexample:
  "loadProjectState True
     (sample_responses\<lparr>updateOne_response := Some (MongoError ProjectUpdateOne)\<rparr>) empty_Doc
     = Inl (MongoError ProjectUpdateOne)"
  by (simp add: loadProjectState_def sample_responses_def)

section \<open>Malformed binary frames\<close>

text \<open>
  C9. The code does not do what the claim says. A binary frame with no byte at all is
  dropped, and so is a frame of an unknown type. But the AWARENESS branch reads the
  client ids with no \<open>try\<close> around it: when the socket has a context and the payload does
  not parse, the exception of the decoder escapes the message handler (the state is left
  as it was). The same holds of the SYNC branch for a user who may edit, when the update
  does not apply.
\<close>

theorem malformed_awareness_escapes:
  "on_message lib uuid sentAt socket (BinaryMessage []) s = (s, None)
   \<and> (t \<noteq> MESSAGE_TYPE_SYNC \<and> t \<noteq> MESSAGE_TYPE_AWARENESS \<longrightarrow>
        on_message lib uuid sentAt socket (BinaryMessage (t # payload)) s = (s, None))
   \<and> (socketContexts s socket = Some c \<and> readAwarenessClientIds lib payload = Inl e \<longrightarrow>
        on_message lib uuid sentAt socket (BinaryMessage (MESSAGE_TYPE_AWARENESS # payload)) s
          = (s, Some e))
   \<and> (socketContexts s socket = Some c \<and>
        \<not> getRoleRank (getEffectiveRole (handler_room s) (user c)) < getRoleRank editor \<and>
        Y_applyUpdate lib (doc (handler_room s)) payload = Inl e \<longrightarrow>
        on_message lib uuid sentAt socket (BinaryMessage (MESSAGE_TYPE_SYNC # payload)) s
          = (s, Some e))"
  by (simp add: on_message_def parseMessage_def on_awareness_def on_sync_def
      MESSAGE_TYPE_AWARENESS_def MESSAGE_TYPE_SYNC_def)

theorem malformed_awareness_escapes_witness:
  "socketContexts sample_server 1 = Some (sample_context u_viewer)
   \<and> readAwarenessClientIds sample_lib [] = Inl UnexpectedEndOfArray
   \<and> on_message sample_lib ''id-1'' ''2026-01-01T00:00:00.000Z'' 1 (BinaryMessage [1]) sample_server
        = (sample_server, Some UnexpectedEndOfArray)"
proof -
  have h1: "socketContexts sample_server 1 = Some (sample_context u_viewer)"
    by (simp add: sample_server_simps sample_contexts_def)
  have h2: "readAwarenessClientIds sample_lib [] = Inl UnexpectedEndOfArray"
    by (simp add: readAwarenessClientIds_def sample_lib_def lib0_readVarUint_def)
  show ?thesis
    using malformed_awareness_escapes [of sample_lib "''id-1''" "''2026-01-01T00:00:00.000Z''" 1
        sample_server 2 "[]" "sample_context u_viewer" UnexpectedEndOfArray] h1 h2
    by (simp add: MESSAGE_TYPE_AWARENESS_def)
qed

section \<open>Paths of files in a cyclic tree\<close>







section \<open>What persistProjectState leaves in the store\<close>

lemma files_frame [simp]:
  "files (project_touch pid now st) = files st"
  "files (suggestion_upsert pid srow st) = files st"
  "files (user_upsert now srow st) = files st"
  "files (suggestion_deleteMany pid ids st) = files st"
  by (simp_all add: project_touch_def suggestion_upsert_def user_upsert_def
      suggestion_deleteMany_def)

lemma suggestions_frame [simp]:
  "suggestions (project_touch pid now st) = suggestions st"
  "suggestions (file_upsert pid frow st) = suggestions st"
  "suggestions (user_upsert now srow st) = suggestions st"
  "suggestions (file_deleteMany pid ids st) = suggestions st"
  by (simp_all add: project_touch_def file_upsert_def user_upsert_def file_deleteMany_def)

lemma files_fold_suggestion_upsert [simp]:
  "files (fold (suggestion_upsert pid) rows st) = files st"
  by (induction rows arbitrary: st) simp_all

lemma files_fold_user_upsert [simp]:
  "files (fold (user_upsert now) rows st) = files st"
  by (induction rows arbitrary: st) simp_all

lemma suggestions_fold_file_upsert [simp]:
  "suggestions (fold (file_upsert pid) rows st) = suggestions st"
  by (induction rows arbitrary: st) simp_all

lemma suggestions_fold_user_upsert [simp]:
  "suggestions (fold (user_upsert now) rows st) = suggestions st"
  by (induction rows arbitrary: st) simp_all












section \<open>Suggestions that fail validation\<close>







section \<open>The scheduler\<close>

lemma sched_step_inv:
  assumes "calls s = (if persistInFlight (sched_room s) then 1 else 0)"
    and "sched_step e s = Some s'"
  shows "calls s' = (if persistInFlight (sched_room s') then 1 else 0)"
proof (cases e)
  case Schedule
  then show ?thesis
    using assms by (auto simp add: scheduleProjectPersist_def Let_def split: option.splits)
next
  case TimerFires
  then show ?thesis
    using assms
    by (auto simp add: start_flush_def flush_enter_def split: option.splits if_splits)
next
  case FinalFlush
  then show ?thesis
    using assms by (auto simp add: start_flush_def flush_enter_def split: if_splits)
next
  case (PersistSettles outcome)
  then show ?thesis
    using assms by (auto simp add: flush_resume_def Let_def split: option.splits if_splits)
qed

lemma sched_run_inv:
  "calls s = (if persistInFlight (sched_room s) then 1 else 0) \<Longrightarrow> sched_run evs s = Some s' \<Longrightarrow>
     calls s' = (if persistInFlight (sched_room s') then 1 else 0)"
proof (induction evs arbitrary: s)
  case Nil
  then show ?case by simp
next
  case (Cons e evs)
  from Cons.prems(2) obtain s1 where s1: "sched_step e s = Some s1" "sched_run evs s1 = Some s'"
    by (auto split: option.splits)
  have "calls s1 = (if persistInFlight (sched_room s1) then 1 else 0)"
    using Cons.prems(1) s1(1) by (rule sched_step_inv)
  then show ?case using s1(2) by (rule Cons.IH)
qed

lemma sched_clears_only_on_settle:
  assumes "sched_step e s = Some s'" and "persistInFlight (sched_room s)"
    and "\<not> persistInFlight (sched_room s')"
  shows "\<exists>outcome. e = PersistSettles outcome"
  using assms
  by (cases e)
    (auto simp add: scheduleProjectPersist_def start_flush_def flush_enter_def Let_def
      split: option.splits if_splits)

text \<open>
  C4. From a fresh room on, under any sequence of schedule requests, timer fires, final
  flushes and settling persist calls, at most one \<open>persistProjectState\<close> call of the room
  is in flight, and one is in flight exactly while \<open>persistInFlight\<close> is set. A flush that
  finds the flag set only sets \<open>persistRequested\<close> again and returns without calling; a
  flush that calls has set the flag first; the flag is cleared by the rest of the flush
  that runs when the call has settled, and by no other event.
\<close>

theorem one_persist_in_flight:
  assumes run: "sched_run evs sched_init = Some s"
  shows "calls s \<le> 1
     \<and> (persistInFlight (sched_room s) \<longleftrightarrow> calls s = 1)
     \<and> (persistInFlight room \<longrightarrow> flush_enter room = (room\<lparr>persistRequested := True\<rparr>, False))
     \<and> (snd (flush_enter room) \<longrightarrow>
          \<not> persistInFlight room \<and> persistInFlight (fst (flush_enter room)))
     \<and> \<not> persistInFlight (flush_resume outcome room)
     \<and> (\<forall>e s'. sched_step e s = Some s' \<and> persistInFlight (sched_room s) \<and>
            \<not> persistInFlight (sched_room s') \<longrightarrow> (\<exists>settled_as. e = PersistSettles settled_as))"
proof -
  have "calls sched_init = (if persistInFlight (sched_room sched_init) then 1 else 0)"
    by (simp add: sched_init_def createRoom_def)
  then have inv: "calls s = (if persistInFlight (sched_room s) then 1 else 0)"
    using run by (rule sched_run_inv)
  have a: "calls s \<le> 1" using inv by simp
  have b: "persistInFlight (sched_room s) \<longleftrightarrow> calls s = 1" using inv by simp
  have c: "persistInFlight room \<longrightarrow> flush_enter room = (room\<lparr>persistRequested := True\<rparr>, False)"
    by (simp add: flush_enter_def)
  have d: "snd (flush_enter room) \<longrightarrow>
          \<not> persistInFlight room \<and> persistInFlight (fst (flush_enter room))"
    by (simp add: flush_enter_def)
  have e: "\<not> persistInFlight (flush_resume outcome room)"
    by (simp add: flush_resume_def Let_def split: option.splits)
  have f: "\<forall>e s'. sched_step e s = Some s' \<and> persistInFlight (sched_room s) \<and>
            \<not> persistInFlight (sched_room s') \<longrightarrow> (\<exists>settled_as. e = PersistSettles settled_as)"
    using sched_clears_only_on_settle by blast
  from a b c d e f show ?thesis by blast
qed

theorem one_persist_in_flight_witness:
  "sched_run [Schedule, TimerFires, Schedule, FinalFlush] sched_init =
     Some \<lparr>sched_room = createRoom\<lparr>persistTimer := None, persistInFlight := True,
                                    persistRequested := True\<rparr>, calls = 1\<rparr>
   \<and> sched_step TimerFires \<lparr>sched_room = createRoom\<lparr>persistTimer := None, persistInFlight := True,
                                    persistRequested := True\<rparr>, calls = 1\<rparr> = None
   \<and> sched_step (PersistSettles None)
        \<lparr>sched_room = createRoom\<lparr>persistTimer := None, persistInFlight := True,
                                 persistRequested := True\<rparr>, calls = 1\<rparr>
       = Some \<lparr>sched_room = createRoom\<lparr>persistTimer := Some 600, persistInFlight := False,
                                 persistRequested := True\<rparr>, calls = 0\<rparr>"
proof -
  have h: "sched_run [Schedule, TimerFires, Schedule, FinalFlush] sched_init =
     Some \<lparr>sched_room = createRoom\<lparr>persistTimer := None, persistInFlight := True,
                                    persistRequested := True\<rparr>, calls = 1\<rparr>"
    by (simp add: sched_init_def createRoom_def scheduleProjectPersist_def start_flush_def
        flush_enter_def Let_def)
  show ?thesis
    using one_persist_in_flight [OF h, of createRoom None] h
    by (simp add: createRoom_def flush_resume_def Let_def)
qed

section \<open>The registry\<close>

lemma registry_invI:
  assumes "\<And>rid p. pendingRooms reg rid = Some p \<Longrightarrow>
             rooms reg rid = None \<and> (\<exists>a. creating reg p = Some (rid, a))"
    and "\<And>p rid a. creating reg p = Some (rid, a) \<Longrightarrow>
             pendingRooms reg rid = Some p \<and> settled reg p = None \<and> p < next_promise reg \<and>
             heap reg a \<noteq> None"
    and "\<And>p v. settled reg p = Some v \<Longrightarrow> p < next_promise reg"
    and "\<And>rid p. (rid, Follows p) \<in> set (issued reg) \<Longrightarrow>
             p < next_promise reg \<and> (settled reg p = None \<longrightarrow> pendingRooms reg rid = Some p)"
  shows "registry_inv reg"
  unfolding registry_inv_def using assms by blast

lemma registry_inv_pending:
  "registry_inv reg \<Longrightarrow> pendingRooms reg rid = Some p \<Longrightarrow>
     rooms reg rid = None \<and> (\<exists>a. creating reg p = Some (rid, a))"
  unfolding registry_inv_def by blast

lemma registry_inv_creating:
  "registry_inv reg \<Longrightarrow> creating reg p = Some (rid, a) \<Longrightarrow>
     pendingRooms reg rid = Some p \<and> settled reg p = None \<and> p < next_promise reg \<and>
     heap reg a \<noteq> None"
  unfolding registry_inv_def by blast

lemma registry_inv_settled:
  "registry_inv reg \<Longrightarrow> settled reg p = Some v \<Longrightarrow> p < next_promise reg"
  unfolding registry_inv_def by blast

lemma registry_inv_issued:
  "registry_inv reg \<Longrightarrow> (rid, Follows p) \<in> set (issued reg) \<Longrightarrow>
     p < next_promise reg \<and> (settled reg p = None \<longrightarrow> pendingRooms reg rid = Some p)"
  unfolding registry_inv_def by blast

lemma registry_inv_init: "registry_inv registry_init"
  by (simp add: registry_inv_def registry_init_def)

lemma registry_inv_call:
  assumes inv: "registry_inv reg" and step: "registry_step (Call rid) reg = Some reg'"
  shows "registry_inv reg'"
proof (cases "rooms reg rid")
  case (Some a)
  then have "reg' = reg\<lparr>issued := issued reg @ [(rid, Resolved a)]\<rparr>"
    using step by (simp add: getOrCreateRoom_def)
  then show ?thesis using inv by (auto simp add: registry_inv_def)
next
  case None
  show ?thesis
  proof (cases "pendingRooms reg rid")
    case (Some p)
    then have "reg' = reg\<lparr>issued := issued reg @ [(rid, Follows p)]\<rparr>"
      using step None by (simp add: getOrCreateRoom_def)
    moreover have "p < next_promise reg"
      using registry_inv_pending [OF inv Some] registry_inv_creating [OF inv] by blast
    ultimately show ?thesis using inv Some by (auto simp add: registry_inv_def)
  next
    case no_pending: None
    have reg': "reg' = reg\<lparr>heap := (heap reg)(next_room reg \<mapsto> createRoom),
                        creating := (creating reg)(next_promise reg \<mapsto> (rid, next_room reg)),
                        pendingRooms := (pendingRooms reg)(rid \<mapsto> next_promise reg),
                        next_room := next_room reg + 1,
                        next_promise := next_promise reg + 1,
                        issued := issued reg @ [(rid, Follows (next_promise reg))]\<rparr>"
      using step None no_pending by (simp add: getOrCreateRoom_def Let_def)
    have fresh1: "creating reg (next_promise reg) = None"
    proof (cases "creating reg (next_promise reg)")
      case (Some ra)
      then show ?thesis using registry_inv_creating [OF inv, of "next_promise reg" "fst ra" "snd ra"]
        by simp
    qed simp
    have fresh2: "settled reg (next_promise reg) = None"
    proof (cases "settled reg (next_promise reg)")
      case (Some v)
      then show ?thesis using registry_inv_settled [OF inv Some] by simp
    qed simp
    show ?thesis
    proof (rule registry_invI)
      fix r p assume a: "pendingRooms reg' r = Some p"
      show "rooms reg' r = None \<and> (\<exists>a. creating reg' p = Some (r, a))"
      proof (cases "r = rid")
        case True
        then show ?thesis using a None by (simp add: reg')
      next
        case False
        then have old: "pendingRooms reg r = Some p" using a by (simp add: reg')
        from registry_inv_pending [OF inv old] obtain b where
          b: "rooms reg r = None" "creating reg p = Some (r, b)" by blast
        then have "p \<noteq> next_promise reg" using fresh1 by auto
        then show ?thesis using b by (simp add: reg')
      qed
    next
      fix p r a assume a: "creating reg' p = Some (r, a)"
      show "pendingRooms reg' r = Some p \<and> settled reg' p = None \<and> p < next_promise reg' \<and>
         heap reg' a \<noteq> None"
      proof (cases "p = next_promise reg")
        case True
        then show ?thesis using a fresh2 by (simp add: reg')
      next
        case False
        then have old: "creating reg p = Some (r, a)" using a by (simp add: reg')
        note c = registry_inv_creating [OF inv old]
        then have "r \<noteq> rid" using no_pending by auto
        then show ?thesis using c False by (simp add: reg')
      qed
    next
      fix p v assume "settled reg' p = Some v"
      then have "settled reg p = Some v" by (simp add: reg')
      then show "p < next_promise reg'"
        using registry_inv_settled [OF inv] by (simp add: reg' less_Suc_eq)
    next
      fix r p assume a: "(r, Follows p) \<in> set (issued reg')"
      show "p < next_promise reg' \<and> (settled reg' p = None \<longrightarrow> pendingRooms reg' r = Some p)"
      proof (cases "(r, Follows p) \<in> set (issued reg)")
        case True
        note i = registry_inv_issued [OF inv True]
        have "settled reg p = None \<Longrightarrow> r \<noteq> rid" using i no_pending by auto
        then show ?thesis using i by (auto simp add: reg' less_Suc_eq)
      next
        case False
        then have "r = rid" "p = next_promise reg" using a by (simp_all add: reg')
        then show ?thesis by (simp add: reg')
      qed
    qed
  qed
qed

lemma registry_inv_resumes:
  assumes inv: "registry_inv reg" and step: "creation_resumes p loaded reg = Some reg'"
  shows "registry_inv reg'"
proof -
  from step obtain rid a where cr: "creating reg p = Some (rid, a)"
    by (auto simp add: creation_resumes_def split: option.splits)
  have pend: "pendingRooms reg rid = Some p" and unsettled: "settled reg p = None"
    and bound: "p < next_promise reg"
    using registry_inv_creating [OF inv cr] by simp_all
  obtain h rs v where reg': "reg' = reg\<lparr>heap := h, rooms := rs,
                         pendingRooms := (pendingRooms reg)(rid := None),
                         creating := (creating reg)(p := None),
                         settled := (settled reg)(p \<mapsto> v)\<rparr>"
    and h: "\<And>b. heap reg b \<noteq> None \<Longrightarrow> h b \<noteq> None"
    and rs: "\<And>r. r \<noteq> rid \<Longrightarrow> rs r = rooms reg r"
  proof (cases loaded)
    case (Inl e)
    then have "reg' = reg\<lparr>heap := heap reg, rooms := rooms reg,
                         pendingRooms := (pendingRooms reg)(rid := None),
                         creating := (creating reg)(p := None),
                         settled := (settled reg)(p \<mapsto> Inl e)\<rparr>"
      using step cr by (simp add: creation_resumes_def)
    then show ?thesis by (rule that) simp_all
  next
    case (Inr ok)
    obtain perms d where ok: "ok = (perms, d)" by (cases ok)
    define h where "h = (case heap reg a of
                           None \<Rightarrow> heap reg
                         | Some r \<Rightarrow> (heap reg)(a \<mapsto> r\<lparr>doc := d, permissions := perms\<rparr>))"
    have eq: "reg' = reg\<lparr>heap := h,
                         rooms := (rooms reg)(rid \<mapsto> a),
                         pendingRooms := (pendingRooms reg)(rid := None),
                         creating := (creating reg)(p := None),
                         settled := (settled reg)(p \<mapsto> Inr a)\<rparr>"
      using step cr Inr ok by (simp add: creation_resumes_def h_def)
    have hh: "\<And>b. heap reg b \<noteq> None \<Longrightarrow> h b \<noteq> None"
      by (auto simp add: h_def split: option.splits)
    show ?thesis by (rule that [OF eq hh]) simp_all
  qed
  show ?thesis
  proof (rule registry_invI)
    fix r q assume a: "pendingRooms reg' r = Some q"
    then have ne: "r \<noteq> rid" and old: "pendingRooms reg r = Some q"
      by (auto simp add: reg' split: if_splits)
    from registry_inv_pending [OF inv old] obtain b where
      b: "rooms reg r = None" "creating reg q = Some (r, b)" by blast
    have "q \<noteq> p" using b(2) cr ne by auto
    then show "rooms reg' r = None \<and> (\<exists>b. creating reg' q = Some (r, b))"
      using b ne rs by (simp add: reg')
  next
    fix q r b assume a: "creating reg' q = Some (r, b)"
    then have ne: "q \<noteq> p" and old: "creating reg q = Some (r, b)"
      by (auto simp add: reg' split: if_splits)
    note c = registry_inv_creating [OF inv old]
    have "r \<noteq> rid" using c pend ne by auto
    then show "pendingRooms reg' r = Some q \<and> settled reg' q = None \<and> q < next_promise reg' \<and>
         heap reg' b \<noteq> None"
      using c ne h by (simp add: reg')
  next
    fix q w assume "settled reg' q = Some w"
    then show "q < next_promise reg'"
      using registry_inv_settled [OF inv, of q] bound by (auto simp add: reg' split: if_splits)
  next
    fix r q assume "(r, Follows q) \<in> set (issued reg')"
    then have old: "(r, Follows q) \<in> set (issued reg)" by (simp add: reg')
    note i = registry_inv_issued [OF inv old]
    have "settled reg' q = None \<Longrightarrow> pendingRooms reg' r = Some q"
    proof -
      assume s: "settled reg' q = None"
      then have ne: "q \<noteq> p" and "settled reg q = None" by (auto simp add: reg' split: if_splits)
      then have pr: "pendingRooms reg r = Some q" using i by simp
      then have "r \<noteq> rid" using pend ne by auto
      then show ?thesis using pr by (simp add: reg')
    qed
    then show "q < next_promise reg' \<and> (settled reg' q = None \<longrightarrow> pendingRooms reg' r = Some q)"
      using i by (simp add: reg')
  qed
qed

lemma registry_inv_step:
  assumes inv: "registry_inv reg" and step: "registry_step e reg = Some reg'"
  shows "registry_inv reg'"
proof (cases e)
  case (Call rid)
  then show ?thesis using inv step registry_inv_call by blast
next
  case (LoadSettles p connected rs)
  then obtain loaded where "creation_resumes p loaded reg = Some reg'"
    using step by (auto split: option.splits)
  then show ?thesis using inv registry_inv_resumes by blast
next
  case (RoomRemoved rid)
  then have "reg' = reg\<lparr>rooms := (rooms reg)(rid := None)\<rparr>" using step by simp
  then show ?thesis using inv by (auto simp add: registry_inv_def)
qed

lemma registry_inv_run:
  "registry_inv reg \<Longrightarrow> registry_run evs reg = Some reg' \<Longrightarrow> registry_inv reg'"
proof (induction evs arbitrary: reg)
  case Nil
  then show ?case by simp
next
  case (Cons e evs)
  from Cons.prems(2) obtain r1 where r1: "registry_step e reg = Some r1"
    "registry_run evs r1 = Some reg'"
    by (auto split: option.splits)
  have "registry_inv r1" using Cons.prems(1) r1(1) by (rule registry_inv_step)
  then show ?case using r1(2) by (rule Cons.IH)
qed

lemma live_rooms_unique:
  assumes inv: "registry_inv reg" and a: "a \<in> live_rooms reg rid" and b: "b \<in> live_rooms reg rid"
  shows "a = b"
proof (cases "rooms reg rid")
  case None
  from a None obtain p where p: "creating reg p = Some (rid, a)" by (auto simp add: live_rooms_def)
  from b None obtain q where q: "creating reg q = Some (rid, b)" by (auto simp add: live_rooms_def)
  have "pendingRooms reg rid = Some p" "pendingRooms reg rid = Some q"
    using registry_inv_creating [OF inv p] registry_inv_creating [OF inv q] by simp_all
  then have "p = q" by simp
  then show ?thesis using p q by simp
next
  case (Some c)
  have no: "creating reg p \<noteq> Some (rid, x)" for p x
  proof
    assume "creating reg p = Some (rid, x)"
    then have "pendingRooms reg rid = Some p" using registry_inv_creating [OF inv] by blast
    then have "rooms reg rid = None" using registry_inv_pending [OF inv] by blast
    then show False using Some by simp
  qed
  then show ?thesis using a b Some by (auto simp add: live_rooms_def)
qed

lemma settled_resumes:
  assumes inv: "registry_inv reg" and step: "creation_resumes q loaded reg = Some reg'"
    and s: "settled reg p = Some v"
  shows "settled reg' p = Some v"
proof -
  from step obtain rid a where cr: "creating reg q = Some (rid, a)"
    by (auto simp add: creation_resumes_def split: option.splits)
  then have "settled reg q = None" using registry_inv_creating [OF inv] by blast
  then have ne: "q \<noteq> p" using s by auto
  show ?thesis
  proof (cases loaded)
    case (Inl e)
    then show ?thesis using step cr ne s by (auto simp add: creation_resumes_def)
  next
    case (Inr ok)
    then show ?thesis using step cr ne s by (cases ok) (auto simp add: creation_resumes_def)
  qed
qed

lemma settled_step:
  assumes inv: "registry_inv reg" and step: "registry_step e reg = Some reg'"
    and s: "settled reg p = Some v"
  shows "settled reg' p = Some v"
proof (cases e)
  case (Call rid)
  then have "settled reg' = settled reg"
    using step by (auto simp add: getOrCreateRoom_def Let_def split: option.splits)
  then show ?thesis using s by simp
next
  case (LoadSettles q connected rs)
  then obtain loaded where "creation_resumes q loaded reg = Some reg'"
    using step by (auto split: option.splits)
  then show ?thesis using inv s settled_resumes by blast
next
  case (RoomRemoved rid)
  then show ?thesis using step s by auto
qed

lemma settled_run:
  "registry_inv reg \<Longrightarrow> registry_run evs reg = Some reg' \<Longrightarrow> settled reg p = Some v \<Longrightarrow>
     settled reg' p = Some v"
proof (induction evs arbitrary: reg)
  case Nil
  then show ?case by simp
next
  case (Cons e evs)
  from Cons.prems(2) obtain r1 where r1: "registry_step e reg = Some r1"
    "registry_run evs r1 = Some reg'"
    by (auto split: option.splits)
  have i: "registry_inv r1" using Cons.prems(1) r1(1) by (rule registry_inv_step)
  have "settled r1 p = Some v" using Cons.prems(1) r1(1) Cons.prems(3) by (rule settled_step)
  with i r1(2) show ?case by (rule Cons.IH)
qed

lemma install_pending:
  assumes inv: "registry_inv reg" and r: "rooms reg rid = None" and p: "pendingRooms reg rid = None"
  shows "snd (getOrCreateRoom rid reg) = Follows (next_promise reg)
       \<and> pendingRooms (fst (getOrCreateRoom rid reg)) rid = Some (next_promise reg)
       \<and> creating (fst (getOrCreateRoom rid reg)) (next_promise reg) = Some (rid, next_room reg)
       \<and> rooms (fst (getOrCreateRoom rid reg)) = rooms reg
       \<and> live_rooms (fst (getOrCreateRoom rid reg)) rid = {next_room reg}"
proof -
  define reg' where "reg' = fst (getOrCreateRoom rid reg)"
  have no: "creating reg q \<noteq> Some (rid, x)" for q x
  proof
    assume "creating reg q = Some (rid, x)"
    then have "pendingRooms reg rid = Some q" using registry_inv_creating [OF inv] by blast
    then show False using p by simp
  qed
  have rooms': "rooms reg' = rooms reg"
    and cr': "creating reg' = (creating reg)(next_promise reg \<mapsto> (rid, next_room reg))"
    and pend': "pendingRooms reg' rid = Some (next_promise reg)"
    and t: "snd (getOrCreateRoom rid reg) = Follows (next_promise reg)"
    using r p by (simp_all add: reg'_def getOrCreateRoom_def Let_def)
  have "live_rooms reg' rid = {next_room reg}"
  proof (rule set_eqI)
    fix a
    show "a \<in> live_rooms reg' rid \<longleftrightarrow> a \<in> {next_room reg}"
    proof
      assume "a \<in> live_rooms reg' rid"
      then obtain q where "creating reg' q = Some (rid, a)"
        using r by (auto simp add: live_rooms_def rooms')
      then have "q = next_promise reg \<and> a = next_room reg"
        using no [of q a] by (auto simp add: cr' split: if_splits)
      then show "a \<in> {next_room reg}" by simp
    next
      assume "a \<in> {next_room reg}"
      then have "creating reg' (next_promise reg) = Some (rid, a)" by (simp add: cr')
      then show "a \<in> live_rooms reg' rid" unfolding live_rooms_def by blast
    qed
  qed
  then show ?thesis using rooms' cr' pend' t by (simp add: reg'_def)
qed

lemma resume_loaded:
  assumes inv: "registry_inv reg" and cr: "creating reg p = Some (rid, a)"
  shows "rooms reg rid = None
       \<and> (\<exists>reg'. creation_resumes p (Inr (perms, d)) reg = Some reg'
            \<and> rooms reg' = (rooms reg)(rid \<mapsto> a) \<and> pendingRooms reg' rid = None
            \<and> settled reg' p = Some (Inr a) \<and> live_rooms reg' rid = {a})"
proof -
  have pend: "pendingRooms reg rid = Some p" using registry_inv_creating [OF inv cr] by simp
  then have none: "rooms reg rid = None" using registry_inv_pending [OF inv] by blast
  have only: "q = p" if "creating reg q = Some (rid, x)" for q x
  proof -
    have "pendingRooms reg rid = Some q" using registry_inv_creating [OF inv that] by simp
    then show ?thesis using pend by simp
  qed
  obtain reg' where reg': "creation_resumes p (Inr (perms, d)) reg = Some reg'"
    and rooms': "rooms reg' = (rooms reg)(rid \<mapsto> a)"
    and cr': "creating reg' = (creating reg)(p := None)"
    and pend': "pendingRooms reg' rid = None"
    and settled': "settled reg' p = Some (Inr a)"
    using cr by (simp add: creation_resumes_def)
  have "live_rooms reg' rid = {a}"
  proof (rule set_eqI)
    fix b
    show "b \<in> live_rooms reg' rid \<longleftrightarrow> b \<in> {a}"
    proof
      assume "b \<in> live_rooms reg' rid"
      then consider "b = a" | q where "creating reg' q = Some (rid, b)"
        by (auto simp add: live_rooms_def rooms')
      then show "b \<in> {a}"
      proof cases
        case 1
        then show ?thesis by simp
      next
        case 2
        then have "q \<noteq> p" "creating reg q = Some (rid, b)"
          by (auto simp add: cr' split: if_splits)
        then show ?thesis using only by blast
      qed
    next
      assume "b \<in> {a}"
      then show "b \<in> live_rooms reg' rid" by (simp add: live_rooms_def rooms')
    qed
  qed
  then show ?thesis using none reg' rooms' pend' settled' by blast
qed

lemma resume_failed:
  assumes cr: "creating reg p = Some (rid, a)"
  shows "\<exists>reg'. creation_resumes p (Inl e) reg = Some reg'
            \<and> rooms reg' = rooms reg \<and> pendingRooms reg' rid = None
            \<and> settled reg' p = Some (Inl e)"
  using cr by (simp add: creation_resumes_def)

text \<open>
  What \<open>getOrCreateRoom\<close> guarantees by itself. In every state the registry reaches from
  the empty one, under any interleaving of calls of \<open>getOrCreateRoom\<close>, settling loads and
  removals of rooms: at most one room is registered or under creation for a room id
  (\<open>live_rooms\<close>: the room registered in \<open>rooms\<close> and the ones held by suspended
  creations); all callers of the id that still wait hold the same promise,
  the one in \<open>pendingRooms\<close>; a call returns the registered room, or follows the pending
  promise, or installs a new pending promise whose creation then holds the only such room;
  when that creation's load succeeds it registers exactly its room, removes the pending
  entry and resolves the promise to the room; when the load fails it removes the pending
  entry all the same and rejects the promise with the load's error; and a promise that
  has settled keeps its value, so every caller that follows it gets the same room or the
  same error.
\<close>

theorem one_room_per_id:
  assumes run: "registry_run evs registry_init = Some reg"
  shows "(\<forall>a b. a \<in> live_rooms reg rid \<and> b \<in> live_rooms reg rid \<longrightarrow> a = b)
     \<and> (\<forall>p q. (rid, Follows p) \<in> set (issued reg) \<and> (rid, Follows q) \<in> set (issued reg) \<and>
            settled reg p = None \<and> settled reg q = None \<longrightarrow>
            p = q \<and> pendingRooms reg rid = Some p)
     \<and> (\<forall>a. rooms reg rid = Some a \<longrightarrow> getOrCreateRoom rid reg = (reg, Resolved a))
     \<and> (\<forall>p. pendingRooms reg rid = Some p \<longrightarrow> getOrCreateRoom rid reg = (reg, Follows p))
     \<and> (rooms reg rid = None \<and> pendingRooms reg rid = None \<longrightarrow>
          snd (getOrCreateRoom rid reg) = Follows (next_promise reg)
          \<and> pendingRooms (fst (getOrCreateRoom rid reg)) rid = Some (next_promise reg)
          \<and> creating (fst (getOrCreateRoom rid reg)) (next_promise reg) = Some (rid, next_room reg)
          \<and> rooms (fst (getOrCreateRoom rid reg)) = rooms reg
          \<and> live_rooms (fst (getOrCreateRoom rid reg)) rid = {next_room reg})
     \<and> (\<forall>p a perms d. creating reg p = Some (rid, a) \<longrightarrow>
          rooms reg rid = None
          \<and> (\<exists>reg'. creation_resumes p (Inr (perms, d)) reg = Some reg'
               \<and> rooms reg' = (rooms reg)(rid \<mapsto> a) \<and> pendingRooms reg' rid = None
               \<and> settled reg' p = Some (Inr a) \<and> live_rooms reg' rid = {a}))
     \<and> (\<forall>p a e. creating reg p = Some (rid, a) \<longrightarrow>
          (\<exists>reg'. creation_resumes p (Inl e) reg = Some reg'
               \<and> rooms reg' = rooms reg \<and> pendingRooms reg' rid = None
               \<and> settled reg' p = Some (Inl e)))
     \<and> (\<forall>evs' reg' p v. registry_run evs' reg = Some reg' \<and> settled reg p = Some v \<longrightarrow>
          settled reg' p = Some v)"
proof -
  have inv: "registry_inv reg"
    using registry_inv_init run by (rule registry_inv_run)
  have c1: "\<forall>a b. a \<in> live_rooms reg rid \<and> b \<in> live_rooms reg rid \<longrightarrow> a = b"
    using live_rooms_unique [OF inv] by blast
  have c2: "\<forall>p q. (rid, Follows p) \<in> set (issued reg) \<and> (rid, Follows q) \<in> set (issued reg) \<and>
            settled reg p = None \<and> settled reg q = None \<longrightarrow>
            p = q \<and> pendingRooms reg rid = Some p"
  proof (intro allI impI)
    fix p q
    assume h: "(rid, Follows p) \<in> set (issued reg) \<and> (rid, Follows q) \<in> set (issued reg) \<and>
            settled reg p = None \<and> settled reg q = None"
    then have "pendingRooms reg rid = Some p" "pendingRooms reg rid = Some q"
      using registry_inv_issued [OF inv, of rid p] registry_inv_issued [OF inv, of rid q]
      by simp_all
    then show "p = q \<and> pendingRooms reg rid = Some p" by simp
  qed
  have c3: "\<forall>a. rooms reg rid = Some a \<longrightarrow> getOrCreateRoom rid reg = (reg, Resolved a)"
    by (simp add: getOrCreateRoom_def)
  have c4: "\<forall>p. pendingRooms reg rid = Some p \<longrightarrow> getOrCreateRoom rid reg = (reg, Follows p)"
    using registry_inv_pending [OF inv] by (auto simp add: getOrCreateRoom_def)
  have c5: "rooms reg rid = None \<and> pendingRooms reg rid = None \<longrightarrow>
          snd (getOrCreateRoom rid reg) = Follows (next_promise reg)
          \<and> pendingRooms (fst (getOrCreateRoom rid reg)) rid = Some (next_promise reg)
          \<and> creating (fst (getOrCreateRoom rid reg)) (next_promise reg) = Some (rid, next_room reg)
          \<and> rooms (fst (getOrCreateRoom rid reg)) = rooms reg
          \<and> live_rooms (fst (getOrCreateRoom rid reg)) rid = {next_room reg}"
    using install_pending [OF inv] by blast
  have c6: "\<forall>p a perms d. creating reg p = Some (rid, a) \<longrightarrow>
          rooms reg rid = None
          \<and> (\<exists>reg'. creation_resumes p (Inr (perms, d)) reg = Some reg'
               \<and> rooms reg' = (rooms reg)(rid \<mapsto> a) \<and> pendingRooms reg' rid = None
               \<and> settled reg' p = Some (Inr a) \<and> live_rooms reg' rid = {a})"
    using resume_loaded [OF inv] by blast
  have c7: "\<forall>p a e. creating reg p = Some (rid, a) \<longrightarrow>
          (\<exists>reg'. creation_resumes p (Inl e) reg = Some reg'
               \<and> rooms reg' = rooms reg \<and> pendingRooms reg' rid = None
               \<and> settled reg' p = Some (Inl e))"
    using resume_failed by blast
  have c8: "\<forall>evs' reg' p v. registry_run evs' reg = Some reg' \<and> settled reg p = Some v \<longrightarrow>
          settled reg' p = Some v"
    using settled_run [OF inv] by blast
  show ?thesis by (intro conjI c1 c2 c3 c4 c5 c6 c7 c8)
qed


theorem one_room_per_id_witness:
  "\<exists>reg. registry_run [Call ''r1'', Call ''r1'', LoadSettles 0 True sample_responses, Call ''r1'']
            registry_init = Some reg
     \<and> issued reg = [(''r1'', Follows 0), (''r1'', Follows 0), (''r1'', Resolved 0)]
     \<and> settled reg 0 = Some (Inr 0)
     \<and> rooms reg ''r1'' = Some 0
     \<and> pendingRooms reg ''r1'' = None
     \<and> getOrCreateRoom ''r1'' reg = (reg, Resolved 0)
     \<and> live_rooms reg ''r1'' = {0}"
proof -
  define reg where "reg = the (registry_run
      [Call ''r1'', Call ''r1'', LoadSettles 0 True sample_responses, Call ''r1''] registry_init)"
  have run: "registry_run [Call ''r1'', Call ''r1'', LoadSettles 0 True sample_responses, Call ''r1'']
            registry_init = Some reg"
    by (simp add: reg_def registry_init_def getOrCreateRoom_def Let_def creation_resumes_def
        loadProjectState_def sample_responses_def createRoom_def)
  have facts: "issued reg = [(''r1'', Follows 0), (''r1'', Follows 0), (''r1'', Resolved 0)]"
    "settled reg 0 = Some (Inr 0)" "rooms reg ''r1'' = Some 0" "pendingRooms reg ''r1'' = None"
    "creating reg = Map.empty"
    by (simp_all add: reg_def registry_init_def getOrCreateRoom_def Let_def creation_resumes_def
        loadProjectState_def sample_responses_def createRoom_def)
  note t = one_room_per_id [OF run, of "''r1''"]
  have call: "getOrCreateRoom ''r1'' reg = (reg, Resolved 0)"
    using t facts(3) by blast
  have live: "live_rooms reg ''r1'' = {0}"
    using facts by (auto simp add: live_rooms_def)
  from run facts call live show ?thesis by blast
qed

section \<open>Teardown and the registry\<close>

lemmas world_defs =
  world_init_def registry_init_def getOrCreateRoom_def Let_def creation_resumes_def
  loadProjectState_def sample_responses_def createRoom_def join_socket_def update_room_def
  removeSocketFromRoom_def flush_enter_def flush_resume_def finish_teardown_def
  persist_settles_def u_editor_def u_viewer_def

text \<open>
  C3. The code does not keep what the claim says. The end of a room's teardown runs after
  an awaited flush and removes whatever room is registered under the id by then. In the
  run \<open>race_trace\<close>, on a connected store, socket 1 leaves the room \<open>r\<close> and its
  teardown waits for the persist call; socket 2 joins and leaves, and its teardown,
  finding a persist call in flight, removes the room at once; socket 3 then creates a
  second room; the first teardown resumes and removes the second room from the registry
  while socket 3 is attached to it; socket 4 creates a third room. Sockets 3 and 4 are
  then both connected under the id \<open>r\<close>, to two different room objects, 1 and 2, neither
  of which was destroyed (only room 0 was, twice).
\<close>

theorem teardown_unregisters_newer_room:
  "\<exists>w. world_run race_trace (world_init True) = Some w
     \<and> map_option roomId (contexts w 3) = Some ''r''
     \<and> map_option roomId (contexts w 4) = Some ''r''
     \<and> closure_room w 3 = Some 1 \<and> closure_room w 4 = Some 2
     \<and> map_option sockets (heap (registry w) 1) = Some [3]
     \<and> map_option sockets (heap (registry w) 2) = Some [4]
     \<and> destroyed w = [0, 0]
     \<and> rooms (registry w) ''r'' = Some 2"
  by (simp add: race_trace_def world_defs)

end
